theory Spec2Isabelle
  imports Complex_Main "HOL-Library.Char_ord" "HOL-Library.List_Lexorder"
begin

section \<open>JavaScript helpers\<close>

text \<open>
  The \<open>||\<close> operator on numbers: the left operand unless it is falsy (zero), else the
  right operand.
\<close>

definition js_or :: "nat \<Rightarrow> nat \<Rightarrow> nat" where
  "js_or a b = (if a = 0 then b else a)"

text \<open>
  \<open>[...new Set(xs)]\<close>: a Set keeps insertion order, so every element stays at the
  position of its first occurrence.
\<close>

fun set_spread :: "'a list \<Rightarrow> 'a list \<Rightarrow> 'a list" where
  "set_spread seen [] = rev seen"
| "set_spread seen (x # xs) =
     (if x \<in> set seen then set_spread seen xs else set_spread (x # seen) xs)"

section \<open>Mention extractor (ingest.ts, in src/unnamed/part_014: extractMentions)\<close>

text \<open>The character class \<open>[A-Z0-9]\<close> of the mention pattern.\<close>

definition id_char :: "char \<Rightarrow> bool" where
  "id_char c = (c \<in> set ''ABCDEFGHIJKLMNOPQRSTUVWXYZ0123456789'')"

text \<open>
  The loop \<open>while ((match = mentionRegex.exec(text)) !== null) mentions.push(match[1])\<close>
  for the global pattern \<open><@([A-Z0-9]+)>\<close>. At a position holding \<open><@\<close> the greedy
  class takes the longest run of id characters; the match succeeds when that run is not
  empty and is followed by \<open>>\<close> (a shorter run cannot be followed by \<open>>\<close>, so
  backtracking never helps), and scanning resumes after the \<open>>\<close>. Otherwise the scan moves
  one character on.
\<close>

function mention_matches :: "string \<Rightarrow> string list" where
  "mention_matches [] = []"
| "mention_matches (c # cs) =
     (if c = CHR ''<'' \<and> cs \<noteq> [] \<and> hd cs = CHR ''@'' then
        (let run = takeWhile id_char (tl cs);
             rest = dropWhile id_char (tl cs)
         in if run \<noteq> [] \<and> rest \<noteq> [] \<and> hd rest = CHR ''>''
            then run # mention_matches (tl rest)
            else mention_matches cs)
      else mention_matches cs)"
  by pat_completeness auto
termination
proof (relation "measure length", goal_cases)
  case 1
  show ?case by simp
next
  case (2 c cs run rest)
  have "length (dropWhile id_char (tl cs)) \<le> length (tl cs)"
    by (rule length_dropWhile_le)
  with 2 show ?case by (cases cs; cases "dropWhile id_char (tl cs)") auto
next
  case 3
  then show ?case by simp
next
  case 4
  then show ?case by simp
qed

definition extractMentions :: "string \<Rightarrow> string list" where
  "extractMentions text = set_spread [] (mention_matches text)"

section \<open>Rate-limited request wrapper (ingest.ts, makeSlackRequest)\<close>

text \<open>
  What a request throws: an error whose code is \<open>ErrorCode.RateLimitedError\<close>, carrying
  the optional \<open>retryAfter\<close> (seconds), or any other error.
\<close>

datatype api_error = RateLimitedError "nat option" | OtherError string

text \<open>One retried attempt: the time slept and the value of \<open>delay\<close> at that moment.\<close>

record retry_event =
  slept_ms :: nat
  backoff_ms :: nat

record 'a request_run =
  outcome :: "api_error + 'a"
  attempts :: nat
  retried :: "retry_event list"

text \<open>
  \<open>requestFn\<close> is a closure called once per attempt; \<open>requestFn k\<close> is what its
  \<open>k\<close>-th call (from 0) returns (\<open>Inr\<close>) or throws (\<open>Inl\<close>). The loop state is the
  source's \<open>retries\<close> and \<open>delay\<close>, together with the number of calls made and the log
  of retried attempts.
\<close>

function makeSlackRequest_loop ::
  "(nat \<Rightarrow> api_error + 'a) \<Rightarrow> nat \<Rightarrow> nat \<Rightarrow> nat \<Rightarrow> nat \<Rightarrow> retry_event list \<Rightarrow> 'a request_run"
where
  "makeSlackRequest_loop requestFn maxRetries retries delay calls evs =
     (case requestFn calls of
        Inr v \<Rightarrow> \<lparr>outcome = Inr v, attempts = Suc calls, retried = evs\<rparr>
      | Inl (RateLimitedError ra) \<Rightarrow>
          if retries < maxRetries then
            (let retryAfter = js_or (case ra of None \<Rightarrow> 0 | Some r \<Rightarrow> r) 1;
                 ev = \<lparr>slept_ms = js_or (retryAfter * 1000) delay, backoff_ms = delay\<rparr>
             in makeSlackRequest_loop requestFn maxRetries (Suc retries) (delay * 2)
                  (Suc calls) (evs @ [ev]))
          else \<lparr>outcome = Inl (RateLimitedError ra), attempts = Suc calls, retried = evs\<rparr>
      | Inl (OtherError e) \<Rightarrow>
          \<lparr>outcome = Inl (OtherError e), attempts = Suc calls, retried = evs\<rparr>)"
  by pat_completeness auto
termination
  by (relation "measure (\<lambda>(f, maxRetries, retries, delay, calls, evs). maxRetries - retries)")
     auto

declare makeSlackRequest_loop.simps [simp del]

definition makeSlackRequest ::
  "(nat \<Rightarrow> api_error + 'a) \<Rightarrow> nat \<Rightarrow> nat \<Rightarrow> 'a request_run" where
  "makeSlackRequest requestFn maxRetries initialDelay =
     makeSlackRequest_loop requestFn maxRetries 0 initialDelay 0 []"

section \<open>Environment and store\<close>

text \<open>
  Truthiness of an optional string (\<open>undefined\<close>, \<open>null\<close> and the empty string are
  falsy) and of an optional count (\<open>undefined\<close> and 0 are falsy).
\<close>

definition truthy :: "string option \<Rightarrow> bool" where
  "truthy s = (case s of None \<Rightarrow> False | Some v \<Rightarrow> v \<noteq> [])"

definition truthy_num :: "nat option \<Rightarrow> bool" where
  "truthy_num n = (case n of None \<Rightarrow> False | Some v \<Rightarrow> v \<noteq> 0)"

text \<open>\<open>x || null\<close> and \<open>x || undefined\<close> on an optional string.\<close>

definition or_null :: "string option \<Rightarrow> string option" where
  "or_null s = (if truthy s then s else None)"

text \<open>Everything a callee can throw.\<close>

datatype error =
    SlackError api_error
  | StoreError
  | Thrown string

text \<open>The payloads of the chat-platform API.\<close>

record reaction =
  reaction_name :: string
  reaction_count :: nat
  reaction_users :: "string list"

record slack_message =
  msg_type :: string
  msg_user :: "string option"
  msg_text :: string
  msg_ts :: string
  msg_thread_ts :: "string option"
  msg_reply_count :: "nat option"
  msg_reactions :: "reaction list option"

record channel_info =
  ch_id :: string
  ch_name :: string
  is_channel :: bool
  is_group :: bool
  is_im :: bool
  is_mpim :: bool

record list_response =
  lr_channels :: "channel_info list"
  lr_next_cursor :: "string option"

record history_response =
  hr_messages :: "slack_message list"
  hr_has_more :: bool
  hr_next_cursor :: "string option"

record user_json =
  uj_name :: string
  uj_real_name :: "string option"
  uj_email :: "string option"
  uj_image_72 :: "string option"
  uj_is_bot :: bool

text \<open>The rows of the relational store (the Prisma models the code writes).\<close>

datatype conversation_type = Channel | Group | Im | Mpim

record conversation_row =
  conv_id :: nat
  conv_slack_id :: string
  conv_name :: string
  conv_type :: conversation_type
  last_ts_processed :: "string option"
  conv_createdAt :: int
  conv_updatedAt :: int

record message_row =
  row_channel_id :: nat
  row_ts :: string
  row_user_id :: string
  row_text :: string
  row_thread_ts :: "string option"
  row_permalink :: string
  row_reactions :: "(string \<times> string list) list option"
  row_mentions :: "string list"
  row_createdAt :: int

record user_row =
  ur_name :: string
  ur_real_name :: "string option"
  ur_email :: "string option"
  ur_avatar :: "string option"
  ur_is_bot :: bool
  ur_last_updated :: int

record UserCacheItem =
  uc_id :: string
  uc_name :: string
  uc_real_name :: "string option"
  uc_email :: "string option"
  uc_avatar :: "string option"
  uc_is_bot :: bool
  uc_timestamp :: int

text \<open>The summary data (summarize.ts, \<open>SummaryData\<close>) and the stored summary.\<close>

record highlight =
  hl_text :: string
  hl_permalink :: string
  hl_ts :: string
  hl_user_id :: string

record task =
  task_title :: string
  owner_user_id :: "string option"
  due_date :: "string option"
  confidence :: rat
  source_ts :: string
  source_permalink :: string

record mention_stat =
  mention_count :: nat
  mention_contexts :: "string list"

record SummaryData =
  sd_summary :: string
  sd_highlights :: "highlight list"
  sd_tasks :: "task list"
  sd_mentions :: "string \<rightharpoonup> mention_stat"

record summary_row =
  sum_id :: nat
  sum_channel_id :: nat
  period_start :: int
  period_end :: int
  sum_summary :: string
  sum_highlights :: "highlight list"
  sum_tasks :: "task list"
  sum_mentions :: "string \<rightharpoonup> mention_stat"

text \<open>A stored message as the summary functions receive it.\<close>

record summary_message =
  sm_text :: string
  sm_ts :: string
  sm_thread_ts :: "string option"
  sm_permalink :: string
  sm_user_id :: string
  sm_reactions :: "(string \<times> string list) list option"

text \<open>The entries of \<open>TASK_PATTERNS\<close> (summarize.ts), in the order of the table.\<close>

datatype task_pattern =
    P_todo
  | P_please
  | P_need_to
  | P_verb_by
  | P_checkbox
  | P_bullet
  | P_numbered

text \<open>The operations on the store that can fail (the callee throws).\<close>

datatype store_op =
    UserUpsert string
  | MessageUpsert nat string
  | ConversationUpsert string
  | ConversationUpdate nat
  | ConversationFind nat
  | MessageFindMany nat
  | SummaryCreate nat

text \<open>
  The environment of a run: the configuration, the clock, the answers of the chat
  platform and the failures of the store. Every answer of the platform is given per
  attempt (\<open>nat \<Rightarrow> api_error + _\<close>), because every call goes through
  \<open>makeSlackRequest\<close>. \<open>parseFloat\<close> is JavaScript's; \<open>None\<close> is \<open>NaN\<close> (the
  infinities, which no timestamp of the platform spells, are left out). The clock does
  not advance during a run.

  The libraries the summary functions call are part of the environment as well:
  \<open>re_match p s\<close> is what \<open>s.match(p)\<close> returns for a pattern of \<open>TASK_PATTERNS\<close>
  (\<open>None\<close> for \<open>null\<close>, otherwise the whole match followed by the captured groups);
  \<open>chrono_parse s\<close> is the list of the dates \<open>chrono.parse(s)\<close> finds, each as its
  \<open>start.date().toISOString()\<close>; \<open>toLocaleString\<close> renders the \<open>Date\<close> made from a
  number of milliseconds; \<open>openai_summary\<close> is what \<open>generateAISummary\<close> returns or
  throws once the client is configured.
\<close>

record env =
  MAX_RETRIES :: nat
  RATE_LIMIT_DELAY :: nat
  now :: int
  parseFloat :: "string \<Rightarrow> rat option"
  store_fails :: "store_op \<Rightarrow> bool"
  users_info :: "string \<Rightarrow> nat \<Rightarrow> api_error + user_json option"
  chat_getPermalink :: "string \<Rightarrow> string \<Rightarrow> nat \<Rightarrow> api_error + string"
  conversations_list :: "string option \<Rightarrow> nat \<Rightarrow> api_error + list_response"
  conversations_info :: "string \<Rightarrow> nat \<Rightarrow> api_error + bool"
  conversations_history ::
    "string \<Rightarrow> string option \<Rightarrow> string option \<Rightarrow> nat \<Rightarrow> nat \<Rightarrow> api_error + history_response"
  conversations_replies ::
    "string \<Rightarrow> string \<Rightarrow> string option \<Rightarrow> nat \<Rightarrow> api_error + history_response"
  re_match :: "task_pattern \<Rightarrow> string \<Rightarrow> string list option"
  chrono_parse :: "string \<Rightarrow> string list"
  toLocaleString :: "rat option \<Rightarrow> string"
  openai_configured :: bool
  openai_summary :: "summary_message list \<Rightarrow> string \<Rightarrow> error + SummaryData"

text \<open>
  The mutable state: the tables of the store, the counters of the generated ids and
  the in-memory \<open>userCache\<close>.
\<close>

record state =
  conversations :: "conversation_row list"
  next_conversation_id :: nat
  messages :: "message_row list"
  summaries :: "summary_row list"
  next_summary_id :: nat
  users :: "string \<rightharpoonup> user_row"
  userCache :: "string \<rightharpoonup> UserCacheItem"

definition USER_CACHE_TTL :: int where
  "USER_CACHE_TTL = 3600 * 1000"

text \<open>A call through the wrapper with the configured defaults: its result or its throw.\<close>

definition slack_call :: "env \<Rightarrow> (nat \<Rightarrow> api_error + 'a) \<Rightarrow> error + 'a" where
  "slack_call e requestFn =
     (case outcome (makeSlackRequest requestFn (MAX_RETRIES e) (RATE_LIMIT_DELAY e)) of
        Inl err \<Rightarrow> Inl (SlackError err)
      | Inr v \<Rightarrow> Inr v)"

section \<open>User directory cache (ingest.ts, getUserInfo)\<close>

text \<open>
  The body of the \<open>try\<close> block: the lookup, the write-through to the store, the refresh
  of the cache entry. \<open>Inl\<close> is a throw.
\<close>

definition getUserInfo_try :: "env \<Rightarrow> string \<Rightarrow> state \<Rightarrow> error + (UserCacheItem \<times> state)" where
  "getUserInfo_try e userId st =
     (case slack_call e (users_info e userId) of
        Inl err \<Rightarrow> Inl err
      | Inr None \<Rightarrow> Inl (Thrown (''User '' @ userId @ '' not found''))
      | Inr (Some user) \<Rightarrow>
          if store_fails e (UserUpsert userId) then Inl StoreError
          else
            (let row = \<lparr>ur_name = uj_name user,
                        ur_real_name = or_null (uj_real_name user),
                        ur_email = or_null (uj_email user),
                        ur_avatar = or_null (uj_image_72 user),
                        ur_is_bot = uj_is_bot user,
                        ur_last_updated = now e\<rparr>;
                 item = \<lparr>uc_id = userId,
                         uc_name = uj_name user,
                         uc_real_name = or_null (uj_real_name user),
                         uc_email = or_null (uj_email user),
                         uc_avatar = or_null (uj_image_72 user),
                         uc_is_bot = uj_is_bot user,
                         uc_timestamp = now e\<rparr>
             in Inr (item, st\<lparr>users := (users st)(userId \<mapsto> row),
                              userCache := (userCache st)(userId \<mapsto> item)\<rparr>)))"

text \<open>
  \<open>getUserInfo\<close>: a fresh cache entry is returned as it is; otherwise the \<open>try\<close> block
  runs, and its \<open>catch\<close> logs and returns \<open>null\<close>.
\<close>

definition getUserInfo :: "env \<Rightarrow> string \<Rightarrow> state \<Rightarrow> UserCacheItem option \<times> state" where
  "getUserInfo e userId st =
     (case userCache st userId of
        Some item \<Rightarrow>
          if now e - uc_timestamp item < USER_CACHE_TTL then (Some item, st)
          else (case getUserInfo_try e userId st of
                  Inl err \<Rightarrow> (None, st)
                | Inr (item', st') \<Rightarrow> (Some item', st'))
      | None \<Rightarrow>
          (case getUserInfo_try e userId st of
             Inl err \<Rightarrow> (None, st)
           | Inr (item', st') \<Rightarrow> (Some item', st')))"

section \<open>Message persistence (ingest.ts, getPermalink and processMessage)\<close>

text \<open>\<open>getPermalink\<close> catches every failure of the lookup and returns the empty string.\<close>

definition getPermalink :: "env \<Rightarrow> string \<Rightarrow> string \<Rightarrow> string" where
  "getPermalink e channel message_ts =
     (case slack_call e (chat_getPermalink e channel message_ts) of
        Inr permalink \<Rightarrow> permalink
      | Inl err \<Rightarrow> [])"

text \<open>
  \<open>await Promise.all(mentions.map(userId => getUserInfo(userId)))\<close>: the results are
  dropped, the effects on the store and the cache stay. The ids are distinct, so each
  lookup touches its own entries; the lookups are run here in the order of the list.
\<close>

fun resolve_mentions :: "env \<Rightarrow> string list \<Rightarrow> state \<Rightarrow> state" where
  "resolve_mentions e [] st = st"
| "resolve_mentions e (userId # rest) st = resolve_mentions e rest (snd (getUserInfo e userId st))"

text \<open>
  The keys of a JavaScript object come in the order of \<open>Object.keys\<close>: first the
  keys that are array indices (canonical decimal numerals below \<open>2^32 - 1\<close>, such as
  the reaction name \<open>100\<close>) in ascending numeric order, then the other keys in the
  order of their creation. Canonical numerals compare as numbers when they are compared
  by length first and as strings next.
\<close>

definition digit_char :: "char \<Rightarrow> bool" where
  "digit_char c = (c \<in> set ''0123456789'')"

definition is_array_index :: "string \<Rightarrow> bool" where
  "is_array_index k =
     (k \<noteq> [] \<and> list_all digit_char k \<and> (k = ''0'' \<or> hd k \<noteq> CHR ''0'')
      \<and> (length k < 10 \<or> (length k = 10 \<and> k < ''4294967295'')))"

definition index_less :: "string \<Rightarrow> string \<Rightarrow> bool" where
  "index_less j k = (length j < length k \<or> (length j = length k \<and> j < k))"

text \<open>A new array-index key goes before the first key that is no smaller index.\<close>

fun insert_index ::
  "string \<Rightarrow> string list \<Rightarrow> (string \<times> string list) list \<Rightarrow> (string \<times> string list) list" where
  "insert_index k v [] = [(k, v)]"
| "insert_index k v ((k', v') # acc) =
     (if is_array_index k' \<and> index_less k' k then (k', v') # insert_index k v acc
      else (k, v) # (k', v') # acc)"

text \<open>
  \<open>acc[r.name] = r.users\<close>: an existing key keeps its place and takes the new value,
  a new key is created at the place the order above gives it.
\<close>

definition put_reaction ::
  "(string \<times> string list) list \<Rightarrow> string \<Rightarrow> string list \<Rightarrow> (string \<times> string list) list" where
  "put_reaction acc k v =
     (if map_of acc k \<noteq> None then map (\<lambda>(k', v'). if k' = k then (k', v) else (k', v')) acc
      else if is_array_index k then insert_index k v acc
      else acc @ [(k, v)])"

text \<open>
  \<open>message.reactions.reduce((acc, r) => { acc[r.name] = r.users; return acc }, {})\<close>,
  and \<open>undefined\<close> when the message has no reactions.
\<close>

definition format_reactions :: "reaction list option \<Rightarrow> (string \<times> string list) list option" where
  "format_reactions rs =
     (case rs of
        None \<Rightarrow> None
      | Some l \<Rightarrow> Some (foldl (\<lambda>acc r. put_reaction acc (reaction_name r) (reaction_users r)) [] l))"

text \<open>
  \<open>prisma.message.upsert\<close> on the compound key \<open>(channel_id, ts)\<close>: a row with the key
  is updated in place (a field given as \<open>undefined\<close> is left as it was), otherwise the
  created row is appended. It gives back the table and the stored row.
\<close>

fun upsert_message :: "message_row list \<Rightarrow> message_row \<Rightarrow> message_row list \<times> message_row" where
  "upsert_message [] new = ([new], new)"
| "upsert_message (r # rs) new =
     (if row_channel_id r = row_channel_id new \<and> row_ts r = row_ts new then
        (let r' = r\<lparr>row_text := row_text new,
                    row_thread_ts := (case row_thread_ts new of None \<Rightarrow> row_thread_ts r | Some t \<Rightarrow> Some t),
                    row_permalink := row_permalink new,
                    row_reactions := (case row_reactions new of None \<Rightarrow> row_reactions r | Some x \<Rightarrow> Some x),
                    row_mentions := row_mentions new\<rparr>
         in (r' # rs, r'))
      else (let (rs', stored) = upsert_message rs new in (r # rs', stored)))"

text \<open>The body of the \<open>try\<close> block of \<open>processMessage\<close>; \<open>Inl\<close> is a throw.\<close>

definition processMessage_try ::
  "env \<Rightarrow> slack_message \<Rightarrow> string \<Rightarrow> nat \<Rightarrow> state \<Rightarrow> (error + message_row option) \<times> state" where
  "processMessage_try e message channelId conversationDbId st =
     (if \<not> truthy (msg_user message) \<or> msg_type message \<noteq> ''message'' then (Inr None, st)
      else
        (let permalink = getPermalink e channelId (msg_ts message);
             mentions = extractMentions (msg_text message);
             st1 = resolve_mentions e mentions st;
             reactions = format_reactions (msg_reactions message)
         in if store_fails e (MessageUpsert conversationDbId (msg_ts message))
            then (Inl StoreError, st1)
            else
              (let (table, storedMessage) =
                     upsert_message (messages st1)
                       \<lparr>row_channel_id = conversationDbId,
                        row_ts = msg_ts message,
                        row_user_id = (case msg_user message of Some u \<Rightarrow> u | None \<Rightarrow> []),
                        row_text = msg_text message,
                        row_thread_ts = msg_thread_ts message,
                        row_permalink = permalink,
                        row_reactions = reactions,
                        row_mentions = mentions,
                        row_createdAt = now e\<rparr>
               in (Inr (Some storedMessage), st1\<lparr>messages := table\<rparr>))))"

text \<open>\<open>processMessage\<close>: the \<open>catch\<close> logs the error and returns \<open>null\<close>.\<close>

definition processMessage ::
  "env \<Rightarrow> slack_message \<Rightarrow> string \<Rightarrow> nat \<Rightarrow> state \<Rightarrow> message_row option \<times> state" where
  "processMessage e message channelId conversationDbId st =
     (case processMessage_try e message channelId conversationDbId st of
        (Inl err, st') \<Rightarrow> (None, st')
      | (Inr stored, st') \<Rightarrow> (stored, st'))"

section \<open>History and thread fetching (ingest.ts, fetchThreadReplies and fetchMessages)\<close>

text \<open>
  The loop \<open>while (hasMore)\<close> of \<open>fetchThreadReplies\<close>. It ends when a page reports
  \<open>has_more = false\<close> or a call throws; a platform that reports more pages for ever
  keeps it running, which is the value \<open>None\<close>.
\<close>

partial_function (option) fetchThreadReplies_loop ::
  "env \<Rightarrow> string \<Rightarrow> string \<Rightarrow> bool \<Rightarrow> string option \<Rightarrow> slack_message list
     \<Rightarrow> (error + slack_message list) option" where
  "fetchThreadReplies_loop e conversationId threadTs hasMore cursor replies =
     (if hasMore then
        (case slack_call e (conversations_replies e conversationId threadTs (or_null cursor)) of
           Inl err \<Rightarrow> Some (Inl err)
         | Inr response \<Rightarrow>
             fetchThreadReplies_loop e conversationId threadTs
               (hr_has_more response) (hr_next_cursor response)
               (if replies = [] \<and> hr_messages response \<noteq> []
                then replies @ tl (hr_messages response)
                else replies @ hr_messages response))
      else Some (Inr replies))"

declare fetchThreadReplies_loop.simps [code]

definition fetchThreadReplies :: "env \<Rightarrow> string \<Rightarrow> string \<Rightarrow> (error + slack_message list) option" where
  "fetchThreadReplies e conversationId threadTs =
     fetchThreadReplies_loop e conversationId threadTs True None []"

text \<open>The loop \<open>while (hasMore && allMessages.length < limit)\<close> of \<open>fetchMessages\<close>.\<close>

partial_function (option) fetchMessages_loop ::
  "env \<Rightarrow> string \<Rightarrow> string option \<Rightarrow> nat \<Rightarrow> bool \<Rightarrow> string option \<Rightarrow> slack_message list
     \<Rightarrow> (error + slack_message list) option" where
  "fetchMessages_loop e conversationId oldest limit hasMore cursor allMessages =
     (if hasMore \<and> length allMessages < limit then
        (case slack_call e (conversations_history e conversationId oldest (or_null cursor)
                              (min 100 (limit - length allMessages))) of
           Inl err \<Rightarrow> Some (Inl err)
         | Inr response \<Rightarrow>
             fetchMessages_loop e conversationId oldest limit
               (hr_has_more response) (hr_next_cursor response)
               (allMessages @ hr_messages response))
      else Some (Inr allMessages))"

declare fetchMessages_loop.simps [code]

text \<open>
  The loop over \<open>allMessages.filter(m => m.thread_ts && !m.reply_count)\<close>: each thread
  is fetched with the message's own \<open>ts\<close>; a throw is caught and logged, and what the
  fetch returns is not used.
\<close>

fun fetch_threads :: "env \<Rightarrow> string \<Rightarrow> slack_message list \<Rightarrow> unit option" where
  "fetch_threads e conversationId [] = Some ()"
| "fetch_threads e conversationId (message # rest) =
     (case fetchThreadReplies e conversationId (msg_ts message) of
        None \<Rightarrow> None
      | Some r \<Rightarrow> fetch_threads e conversationId rest)"

definition fetchMessages ::
  "env \<Rightarrow> string \<Rightarrow> string option \<Rightarrow> nat \<Rightarrow> (error + slack_message list) option" where
  "fetchMessages e conversationId oldest limit =
     (case fetchMessages_loop e conversationId oldest limit True None [] of
        None \<Rightarrow> None
      | Some (Inl err) \<Rightarrow> Some (Inl err)
      | Some (Inr allMessages) \<Rightarrow>
          (case fetch_threads e conversationId
                  (filter (\<lambda>m. truthy (msg_thread_ts m) \<and> \<not> truthy_num (msg_reply_count m))
                     allMessages) of
             None \<Rightarrow> None
           | Some u \<Rightarrow> Some (Inr allMessages)))"

section \<open>Ingestion orchestrator (ingest.ts, ingestAllConversations)\<close>

text \<open>The loop \<open>do { ... } while (cursor)\<close> of \<open>listAllConversations\<close>; \<open>collected\<close> is
  the source's array \<open>conversations\<close>.\<close>

partial_function (option) listAllConversations_loop ::
  "env \<Rightarrow> string option \<Rightarrow> channel_info list \<Rightarrow> (error + channel_info list) option" where
  "listAllConversations_loop e cursor collected =
     (case slack_call e (conversations_list e (or_null cursor)) of
        Inl err \<Rightarrow> Some (Inl err)
      | Inr response \<Rightarrow>
          if truthy (lr_next_cursor response)
          then listAllConversations_loop e (lr_next_cursor response)
                 (collected @ lr_channels response)
          else Some (Inr (collected @ lr_channels response)))"

declare listAllConversations_loop.simps [code]

definition listAllConversations :: "env \<Rightarrow> (error + channel_info list) option" where
  "listAllConversations e = listAllConversations_loop e None []"

text \<open>\<open>prisma.conversation.upsert\<close> on the unique \<open>slack_id\<close>.\<close>

fun upsert_conversation ::
  "conversation_row list \<Rightarrow> conversation_row \<Rightarrow> conversation_row list \<times> conversation_row" where
  "upsert_conversation [] new = ([new], new)"
| "upsert_conversation (r # rs) new =
     (if conv_slack_id r = conv_slack_id new then
        (let r' = r\<lparr>conv_name := conv_name new, conv_type := conv_type new,
                    conv_updatedAt := conv_updatedAt new\<rparr>
         in (r' # rs, r'))
      else (let (rs', stored) = upsert_conversation rs new in (r # rs', stored)))"

definition ensureConversation ::
  "env \<Rightarrow> channel_info \<Rightarrow> state \<Rightarrow> (error + conversation_row) \<times> state" where
  "ensureConversation e conversationInfo st =
     (case (if is_channel conversationInfo then Some Channel
            else if is_group conversationInfo then Some Group
            else if is_im conversationInfo then Some Im
            else if is_mpim conversationInfo then Some Mpim
            else None) of
        None \<Rightarrow> (Inl (Thrown (''Unknown conversation type for '' @ ch_id conversationInfo)), st)
      | Some type \<Rightarrow>
          if store_fails e (ConversationUpsert (ch_id conversationInfo)) then (Inl StoreError, st)
          else
            (let (table, conversation) =
                   upsert_conversation (conversations st)
                     \<lparr>conv_id = next_conversation_id st,
                      conv_slack_id = ch_id conversationInfo,
                      conv_name = ch_name conversationInfo,
                      conv_type = type,
                      last_ts_processed = None,
                      conv_createdAt = now e,
                      conv_updatedAt = now e\<rparr>
             in (Inr conversation,
                 st\<lparr>conversations := table,
                    next_conversation_id :=
                      (if conv_id conversation = next_conversation_id st
                       then Suc (next_conversation_id st) else next_conversation_id st)\<rparr>)))"

text \<open>
  \<open>prisma.conversation.update({ where: { id }, data: { last_ts_processed: lastTs } })\<close>.
\<close>

definition update_last_ts :: "conversation_row list \<Rightarrow> nat \<Rightarrow> string \<Rightarrow> conversation_row list" where
  "update_last_ts table dbId lastTs =
     map (\<lambda>r. if conv_id r = dbId then r\<lparr>last_ts_processed := Some lastTs\<rparr> else r) table"

text \<open>The comparison \<open>a > b\<close> of two numbers, false when either is \<open>NaN\<close>.\<close>

definition js_gt :: "rat option \<Rightarrow> rat option \<Rightarrow> bool" where
  "js_gt a b = (case (a, b) of (Some x, Some y) \<Rightarrow> x > y | _ \<Rightarrow> False)"

text \<open>
  The loop \<open>for (const message of messages)\<close>: the message is processed, the result of
  \<open>processMessage\<close> is not looked at, and \<open>lastTs\<close> follows the latest timestamp seen.
\<close>

fun process_batch ::
  "env \<Rightarrow> slack_message list \<Rightarrow> string \<Rightarrow> nat \<Rightarrow> string option \<Rightarrow> state \<Rightarrow> string option \<times> state" where
  "process_batch e [] channelId dbId lastTs st = (lastTs, st)"
| "process_batch e (message # rest) channelId dbId lastTs st =
     (let st' = snd (processMessage e message channelId dbId st);
          lastTs' =
            (if \<not> truthy lastTs
                \<or> js_gt (parseFloat e (msg_ts message))
                     (parseFloat e (case lastTs of Some l \<Rightarrow> l | None \<Rightarrow> []))
             then Some (msg_ts message) else lastTs)
      in process_batch e rest channelId dbId lastTs' st')"

text \<open>
  The body of the \<open>try\<close> block for one conversation; \<open>Inl\<close> is a throw, \<open>None\<close> a fetch
  that never ends.
\<close>

definition ingestConversation_try ::
  "env \<Rightarrow> string option \<Rightarrow> channel_info \<Rightarrow> state \<Rightarrow> ((error + unit) \<times> state) option" where
  "ingestConversation_try e since conversation st =
     (case slack_call e (conversations_info e (ch_id conversation)) of
        Inl err \<Rightarrow> Some (Inl err, st)
      | Inr channel_present \<Rightarrow>
          if \<not> channel_present then Some (Inr (), st)
          else
            (case ensureConversation e conversation st of
               (Inl err, st1) \<Rightarrow> Some (Inl err, st1)
             | (Inr dbConversation, st1) \<Rightarrow>
                 (let oldest = (if \<not> truthy since \<and> truthy (last_ts_processed dbConversation)
                                then last_ts_processed dbConversation else since)
                  in case fetchMessages e (ch_id conversation) oldest 1000 of
                       None \<Rightarrow> None
                     | Some (Inl err) \<Rightarrow> Some (Inl err, st1)
                     | Some (Inr msgs) \<Rightarrow>
                         (let (lastTs, st2) =
                                process_batch e msgs (ch_id conversation)
                                  (conv_id dbConversation) None st1
                          in if truthy lastTs then
                               (if store_fails e (ConversationUpdate (conv_id dbConversation))
                                then Some (Inl StoreError, st2)
                                else Some (Inr (),
                                       st2\<lparr>conversations :=
                                             update_last_ts (conversations st2)
                                               (conv_id dbConversation)
                                               (case lastTs of Some l \<Rightarrow> l | None \<Rightarrow> [])\<rparr>))
                             else Some (Inr (), st2)))))"

text \<open>One round of the loop over the conversations: the \<open>catch\<close> logs and goes on.\<close>

definition ingestConversation ::
  "env \<Rightarrow> string option \<Rightarrow> channel_info \<Rightarrow> state \<Rightarrow> state option" where
  "ingestConversation e since conversation st =
     map_option snd (ingestConversation_try e since conversation st)"

fun ingest_loop :: "env \<Rightarrow> string option \<Rightarrow> channel_info list \<Rightarrow> state \<Rightarrow> state option" where
  "ingest_loop e since [] st = Some st"
| "ingest_loop e since (conversation # rest) st =
     (case ingestConversation e since conversation st of
        None \<Rightarrow> None
      | Some st' \<Rightarrow> ingest_loop e since rest st')"

text \<open>
  \<open>ingestAllConversations\<close>: a failure of the listing is thrown on to the caller, the
  failures inside a conversation are not.
\<close>

definition ingestAllConversations ::
  "env \<Rightarrow> string option \<Rightarrow> state \<Rightarrow> ((error + unit) \<times> state) option" where
  "ingestAllConversations e since st =
     (case listAllConversations e of
        None \<Rightarrow> None
      | Some (Inl err) \<Rightarrow> Some (Inl err, st)
      | Some (Inr convs) \<Rightarrow> map_option (Pair (Inr ())) (ingest_loop e since convs st))"

text \<open>The stored watermark of a conversation, looked up by its external id.\<close>

definition watermark :: "state \<Rightarrow> string \<Rightarrow> string option" where
  "watermark st slackId =
     (case filter (\<lambda>r. conv_slack_id r = slackId) (conversations st) of
        [] \<Rightarrow> None
      | r # rs \<Rightarrow> last_ts_processed r)"

section \<open>Task heuristic extractor (summarize.ts, in src/src/server.ts: extractTasksHeuristic)\<close>

definition TASK_PATTERNS :: "task_pattern list" where
  "TASK_PATTERNS = [P_todo, P_please, P_need_to, P_verb_by, P_checkbox, P_bullet, P_numbered]"

text \<open>
  \<open>parts.join(' ')\<close> and \<open>s.trim()\<close>. A character of the model is a code unit below
  256, so the white space and line terminators that \<open>trim\<close> strips are the six of ASCII
  and the no-break space \<open>U+00A0\<close>.
\<close>

fun join_space :: "string list \<Rightarrow> string" where
  "join_space [] = []"
| "join_space [x] = x"
| "join_space (x # y # rest) = x @ '' '' @ join_space (y # rest)"

definition is_space :: "char \<Rightarrow> bool" where
  "is_space c =
     (c \<in> set [CHR '' '', CHR 0x09, CHR 0x0A, CHR 0x0B, CHR 0x0C, CHR 0x0D, CHR 0xA0])"

definition trim :: "string \<Rightarrow> string" where
  "trim s = rev (dropWhile is_space (rev (dropWhile is_space s)))"

text \<open>
  The loop \<open>for (const pattern of TASK_PATTERNS)\<close>: \<open>tasks\<close> is the array built so far.
\<close>

fun extractTasks_loop :: "env \<Rightarrow> summary_message \<Rightarrow> task_pattern list \<Rightarrow> task list \<Rightarrow> task list" where
  "extractTasks_loop e message [] tasks = tasks"
| "extractTasks_loop e message (pattern # rest) tasks =
     (case re_match e pattern (sm_text message) of
        None \<Rightarrow> extractTasks_loop e message rest tasks
      | Some matches \<Rightarrow>
          if length matches > 1 then
            (let title = trim (join_space (drop 1 matches))
             in if length title < 5 then extractTasks_loop e message rest tasks
                else
                  (let mentions = extractMentions (sm_text message);
                       owner = (case mentions of [m] \<Rightarrow> Some m | _ \<Rightarrow> None);
                       parsedDate = chrono_parse e (sm_text message);
                       dueDate = (case parsedDate of [] \<Rightarrow> None | d # ds \<Rightarrow> Some d)
                   in extractTasks_loop e message rest
                        (tasks @ [\<lparr>task_title = title,
                                   owner_user_id = owner,
                                   due_date = dueDate,
                                   confidence = 6 / 10,
                                   source_ts = sm_ts message,
                                   source_permalink = sm_permalink message\<rparr>])))
          else extractTasks_loop e message rest tasks)"

definition extractTasksHeuristic :: "env \<Rightarrow> summary_message \<Rightarrow> task list" where
  "extractTasksHeuristic e message = extractTasks_loop e message TASK_PATTERNS []"

section \<open>Summary generator (summarize.ts)\<close>

text \<open>A number of the template, in decimal.\<close>

fun show_nat :: "nat \<Rightarrow> string" where
  "show_nat n =
     (if n < 10 then [char_of (48 + n)]
      else show_nat (n div 10) @ [char_of (48 + n mod 10)])"

declare show_nat.simps [simp del]

text \<open>\<open>new Date(parseFloat(ts || '0') * 1000).toLocaleString()\<close>.\<close>

definition period_string :: "env \<Rightarrow> string option \<Rightarrow> string" where
  "period_string e ts =
     toLocaleString e
       (map_option (\<lambda>x. x * 1000)
          (parseFloat e (case or_null ts of None \<Rightarrow> ''0'' | Some t \<Rightarrow> t)))"

text \<open>The three tests of a highlight: reactions, thread parent, question mark.\<close>

definition is_highlight :: "summary_message list \<Rightarrow> summary_message \<Rightarrow> bool" where
  "is_highlight msgs msg =
     ((case sm_reactions msg of None \<Rightarrow> False | Some rs \<Rightarrow> rs \<noteq> [])
      \<or> list_ex (\<lambda>m. sm_thread_ts m = Some (sm_ts msg) \<and> sm_ts m \<noteq> sm_ts msg) msgs
      \<or> CHR ''?'' \<in> set (sm_text msg))"

text \<open>One step of the mention aggregation: \<open>mentionsMap[userId]\<close> for a message text.\<close>

definition add_mention :: "string \<Rightarrow> (string \<rightharpoonup> mention_stat) \<Rightarrow> string \<Rightarrow> (string \<rightharpoonup> mention_stat)" where
  "add_mention msg_txt m userId =
     (let old = (case m userId of
                   None \<Rightarrow> \<lparr>mention_count = 0, mention_contexts = []\<rparr>
                 | Some s \<Rightarrow> s)
      in m(userId \<mapsto>
           \<lparr>mention_count = mention_count old + 1,
            mention_contexts =
              (if length (mention_contexts old) < 3
               then mention_contexts old @ [take 30 msg_txt @ ''...'']
               else mention_contexts old)\<rparr>))"

text \<open>The numbered lines of the key messages, from index \<open>i\<close>.\<close>

fun key_lines :: "nat \<Rightarrow> highlight list \<Rightarrow> string" where
  "key_lines i [] = []"
| "key_lines i (h # hs) =
     show_nat (i + 1) @ ''. \"'' @ take 50 (hl_text h) @ ''...\"'' @ [CHR 0x0A]
       @ key_lines (i + 1) hs"

definition generateHeuristicSummary :: "env \<Rightarrow> summary_message list \<Rightarrow> string \<Rightarrow> SummaryData" where
  "generateHeuristicSummary e msgs channelName =
     (let highlights =
            take 5 (map (\<lambda>msg. \<lparr>hl_text = sm_text msg, hl_permalink = sm_permalink msg,
                                hl_ts = sm_ts msg, hl_user_id = sm_user_id msg\<rparr>)
                      (filter (is_highlight msgs) msgs));
          threadMap =
            set_spread []
              (map (\<lambda>msg. case sm_thread_ts msg of Some t \<Rightarrow> t | None \<Rightarrow> [])
                 (filter (\<lambda>msg. truthy (sm_thread_ts msg) \<and> Some (sm_ts msg) \<noteq> sm_thread_ts msg)
                    msgs));
          mentionsMap =
            foldl (\<lambda>m msg. foldl (add_mention (sm_text msg)) m (extractMentions (sm_text msg)))
              Map.empty msgs;
          tasks = concat (map (extractTasksHeuristic e) msgs);
          summaryText =
            ''Channel: '' @ channelName @ [CHR 0x0A]
            @ ''Period: ''
            @ period_string e (case msgs of [] \<Rightarrow> None | m # ms \<Rightarrow> Some (sm_ts m))
            @ '' to ''
            @ period_string e (case msgs of [] \<Rightarrow> None | m # ms \<Rightarrow> Some (sm_ts (last msgs)))
            @ [CHR 0x0A, CHR 0x0A]
            @ ''Total messages: '' @ show_nat (length msgs) @ [CHR 0x0A]
            @ ''Active threads: '' @ show_nat (length threadMap) @ [CHR 0x0A]
            @ ''Unique participants: ''
            @ show_nat (length (set_spread [] (map sm_user_id msgs))) @ [CHR 0x0A]
            @ (if highlights \<noteq> [] then [CHR 0x0A] @ ''Key messages:'' @ [CHR 0x0A] @ key_lines 0 highlights
               else [])
      in \<lparr>sd_summary = summaryText, sd_highlights = highlights, sd_tasks = tasks,
          sd_mentions = mentionsMap\<rparr>)"

text \<open>\<open>generateAISummary\<close>: it throws when the client is not configured.\<close>

definition generateAISummary :: "env \<Rightarrow> summary_message list \<Rightarrow> string \<Rightarrow> error + SummaryData" where
  "generateAISummary e msgs channelName =
     (if \<not> openai_configured e then Inl (Thrown ''OpenAI API key not configured'')
      else openai_summary e msgs channelName)"

text \<open>
  \<open>prisma.message.findMany\<close>: the rows of the conversation created inside the window,
  in ascending order of \<open>ts\<close>; each row is handed on as a \<open>summary_message\<close>.
\<close>

definition messages_in_window :: "state \<Rightarrow> nat \<Rightarrow> int \<Rightarrow> int \<Rightarrow> message_row list" where
  "messages_in_window st conversationId startTime endTime =
     sort_key row_ts
       (filter (\<lambda>r. row_channel_id r = conversationId
                   \<and> startTime \<le> row_createdAt r \<and> row_createdAt r \<le> endTime)
          (messages st))"

definition to_summary_message :: "message_row \<Rightarrow> summary_message" where
  "to_summary_message m =
     \<lparr>sm_text = row_text m, sm_ts = row_ts m, sm_thread_ts = or_null (row_thread_ts m),
      sm_permalink = row_permalink m, sm_user_id = row_user_id m,
      sm_reactions = row_reactions m\<rparr>"

text \<open>
  The inner \<open>try\<close> of \<open>generateSummaryForTimeWindow\<close>: the model-backed path when the
  client is there, the heuristic one otherwise, and the heuristic one again in the
  \<open>catch\<close>.
\<close>

definition summary_data_for :: "env \<Rightarrow> summary_message list \<Rightarrow> string \<Rightarrow> SummaryData" where
  "summary_data_for e msgs channelName =
     (if openai_configured e then
        (case generateAISummary e msgs channelName of
           Inr summaryData \<Rightarrow> summaryData
         | Inl err \<Rightarrow> generateHeuristicSummary e msgs channelName)
      else generateHeuristicSummary e msgs channelName)"

text \<open>
  \<open>generateSummaryForTimeWindow\<close>: \<open>Inl\<close> is the error thrown on to the caller,
  \<open>Inr None\<close> the \<open>null\<close> of an empty window.
\<close>

definition generateSummaryForTimeWindow ::
  "env \<Rightarrow> nat \<Rightarrow> int \<Rightarrow> int \<Rightarrow> state \<Rightarrow> (error + summary_row option) \<times> state" where
  "generateSummaryForTimeWindow e conversationId startTime endTime st =
     (if store_fails e (ConversationFind conversationId) then (Inl StoreError, st)
      else
        (case filter (\<lambda>r. conv_id r = conversationId) (conversations st) of
           [] \<Rightarrow> (Inl (Thrown (''Conversation '' @ show_nat conversationId @ '' not found'')), st)
         | conversation # others \<Rightarrow>
             if store_fails e (MessageFindMany conversationId) then (Inl StoreError, st)
             else
               (let found = messages_in_window st conversationId startTime endTime
                in if found = [] then (Inr None, st)
                   else
                     (let summaryData =
                            summary_data_for e (map to_summary_message found)
                              (conv_name conversation)
                      in if store_fails e (SummaryCreate conversationId) then (Inl StoreError, st)
                         else
                           (let summary =
                                  \<lparr>sum_id = next_summary_id st,
                                   sum_channel_id = conversationId,
                                   period_start = startTime,
                                   period_end = endTime,
                                   sum_summary = sd_summary summaryData,
                                   sum_highlights = sd_highlights summaryData,
                                   sum_tasks = sd_tasks summaryData,
                                   sum_mentions = sd_mentions summaryData\<rparr>
                            in (Inr (Some summary),
                                st\<lparr>summaries := summaries st @ [summary],
                                   next_summary_id := Suc (next_summary_id st)\<rparr>))))))"

section \<open>Reference notions and test doubles\<close>

text \<open>
  An id is referenced by a text when the text contains \<open><@ID>\<close> with a non-empty \<open>ID\<close>
  made of the characters of the mention syntax.
\<close>

definition referenced_id :: "string \<Rightarrow> string \<Rightarrow> bool" where
  "referenced_id text i =
     (i \<noteq> [] \<and> list_all id_char i \<and>
      (\<exists>pre post. text = pre @ ''<@'' @ i @ ''>'' @ post))"

text \<open>
  The value of \<open>(error.retryAfter || 1) * 1000 || delay\<close>, in milliseconds, for every
  \<open>delay\<close>.
\<close>

definition retry_sleep_ms :: "nat option \<Rightarrow> nat" where
  "retry_sleep_ms ra = 1000 * (case ra of None \<Rightarrow> 1 | Some s \<Rightarrow> if s = 0 then 1 else s)"

text \<open>
  The invariant of \<open>lastTs\<close>: nothing before the first message; afterwards a non-empty
  timestamp among those seen that none of them exceeds.
\<close>

definition latest_of :: "env \<Rightarrow> string option \<Rightarrow> string set \<Rightarrow> bool" where
  "latest_of e lastTs seen =
     ((lastTs = None \<and> seen = {})
      \<or> (\<exists>t. lastTs = Some t \<and> t \<noteq> [] \<and> t \<in> seen
             \<and> (\<forall>s\<in>seen. \<not> js_gt (parseFloat e s) (parseFloat e t))))"

text \<open>A request that is rate-limited twice and then succeeds, and one that always is.\<close>

definition twice_limited :: "nat \<Rightarrow> api_error + string" where
  "twice_limited k = (if k < 2 then Inl (RateLimitedError (Some 1)) else Inr ''ok'')"

definition always_limited :: "nat \<Rightarrow> api_error + string" where
  "always_limited k = Inl (RateLimitedError (Some 1))"

text \<open>
  An environment in which the platform answers nothing useful, the store never fails and
  the libraries find nothing; the test doubles below change the fields they need.
\<close>

definition quiet_env :: env where
  "quiet_env =
     \<lparr>MAX_RETRIES = 3, RATE_LIMIT_DELAY = 1000, now = 0,
      parseFloat = (\<lambda>s. None),
      store_fails = (\<lambda>op. False),
      users_info = (\<lambda>userId k. Inl (OtherError ''user_not_found'')),
      chat_getPermalink = (\<lambda>channel ts k. Inl (OtherError ''message_not_found'')),
      conversations_list = (\<lambda>cursor k. Inr \<lparr>lr_channels = [], lr_next_cursor = None\<rparr>),
      conversations_info = (\<lambda>channel k. Inr True),
      conversations_history =
        (\<lambda>channel oldest cursor limit k.
           Inr \<lparr>hr_messages = [], hr_has_more = False, hr_next_cursor = None\<rparr>),
      conversations_replies =
        (\<lambda>channel ts cursor k.
           Inr \<lparr>hr_messages = [], hr_has_more = False, hr_next_cursor = None\<rparr>),
      re_match = (\<lambda>p s. None),
      chrono_parse = (\<lambda>s. []),
      toLocaleString = (\<lambda>ms. ''Invalid Date''),
      openai_configured = False,
      openai_summary = (\<lambda>msgs name. Inl (Thrown ''unreachable''))\<rparr>"

definition empty_state :: state where
  "empty_state =
     \<lparr>conversations = [], next_conversation_id = 1, messages = [], summaries = [],
      next_summary_id = 1, users = Map.empty, userCache = Map.empty\<rparr>"

text \<open>
  A regular-expression engine that answers as JavaScript's does on the two texts below:
  only the \<open>todo\<close> pattern matches them, with the rest of the text after \<open>todo: \<close> as
  its group.
\<close>

definition todo_env :: env where
  "todo_env = quiet_env\<lparr>re_match := (\<lambda>p s. if p = P_todo then Some [s, drop 6 s] else None)\<rparr>"

definition one_mention_message :: summary_message where
  "one_mention_message =
     \<lparr>sm_text = ''todo: <@U1> finish the report'', sm_ts = ''100'', sm_thread_ts = None,
      sm_permalink = ''https://example.com/p100'', sm_user_id = ''U9'', sm_reactions = None\<rparr>"

definition two_mention_message :: summary_message where
  "two_mention_message =
     \<lparr>sm_text = ''todo: <@U1> <@U2> finish the report'', sm_ts = ''101'', sm_thread_ts = None,
      sm_permalink = ''https://example.com/p101'', sm_user_id = ''U9'', sm_reactions = None\<rparr>"

text \<open>
  An ordinary message that mentions a user; in \<open>quiet_env\<close> neither its permalink nor
  the mentioned user can be looked up.
\<close>

definition hello_message :: slack_message where
  "hello_message =
     \<lparr>msg_type = ''message'', msg_user = Some ''U1'', msg_text = ''hi <@U2>'',
      msg_ts = ''100'', msg_thread_ts = None, msg_reply_count = None, msg_reactions = None\<rparr>"

text \<open>A system message without author, and a store that refuses every message.\<close>

definition system_message :: slack_message where
  "system_message = hello_message\<lparr>msg_user := None\<rparr>"

definition failing_store_env :: env where
  "failing_store_env =
     quiet_env\<lparr>store_fails := (\<lambda>op. case op of MessageUpsert c ts \<Rightarrow> True | _ \<Rightarrow> False)\<rparr>"

text \<open>
  A platform with the one channel \<open>C1\<close>, and \<open>parseFloat\<close> on the timestamps the test
  doubles use.
\<close>

definition channel_C1 :: channel_info where
  "channel_C1 =
     \<lparr>ch_id = ''C1'', ch_name = ''general'', is_channel = True, is_group = False,
      is_im = False, is_mpim = False\<rparr>"

definition ts_value :: "string \<Rightarrow> rat option" where
  "ts_value s =
     (if s = ''50'' then Some 50 else if s = ''100'' then Some 100
      else if s = ''200'' then Some 200 else None)"

definition one_channel_env :: env where
  "one_channel_env =
     quiet_env\<lparr>parseFloat := ts_value,
               conversations_list :=
                 (\<lambda>cursor k. Inr \<lparr>lr_channels = [channel_C1], lr_next_cursor = None\<rparr>)\<rparr>"

text \<open>
  What a run left in the store for a conversation: the timestamps of the stored
  messages and the watermark (\<open>None\<close> when the run does not end).
\<close>

definition stored_after ::
  "((error + unit) \<times> state) option \<Rightarrow> string \<Rightarrow> (string list \<times> string option) option" where
  "stored_after run slackId =
     map_option (\<lambda>(r, st). (map row_ts (messages st), watermark st slackId)) run"

text \<open>
  A thread in \<open>C1\<close>: the history holds the starter (its \<open>thread_ts\<close> is its own \<open>ts\<close>,
  and it counts one reply), the replies of the thread are the starter and the reply.
\<close>

definition thread_starter :: slack_message where
  "thread_starter =
     \<lparr>msg_type = ''message'', msg_user = Some ''U1'', msg_text = ''shall we ship'',
      msg_ts = ''100'', msg_thread_ts = Some ''100'', msg_reply_count = Some 1,
      msg_reactions = None\<rparr>"

definition thread_reply :: slack_message where
  "thread_reply =
     \<lparr>msg_type = ''message'', msg_user = Some ''U2'', msg_text = ''yes'',
      msg_ts = ''200'', msg_thread_ts = Some ''100'', msg_reply_count = None,
      msg_reactions = None\<rparr>"

definition thread_env :: env where
  "thread_env =
     one_channel_env
       \<lparr>conversations_history :=
          (\<lambda>channel oldest cursor limit k.
             Inr \<lparr>hr_messages = [thread_starter], hr_has_more = False, hr_next_cursor = None\<rparr>),
        conversations_replies :=
          (\<lambda>channel ts cursor k.
             Inr \<lparr>hr_messages = (if ts = ''100'' then [thread_starter, thread_reply] else []),
                  hr_has_more = False, hr_next_cursor = None\<rparr>)\<rparr>"

text \<open>
  A conversation whose watermark is 200, ingested again with the override 50 after the
  message at 200 was deleted on the platform: the history from 50 on holds one message,
  at 100.
\<close>

definition rewind_state :: state where
  "rewind_state =
     empty_state
       \<lparr>conversations :=
          [\<lparr>conv_id = 7, conv_slack_id = ''C1'', conv_name = ''general'', conv_type = Channel,
            last_ts_processed = Some ''200'', conv_createdAt = 0, conv_updatedAt = 0\<rparr>],
        next_conversation_id := 8\<rparr>"

definition rewind_env :: env where
  "rewind_env =
     one_channel_env
       \<lparr>conversations_history :=
          (\<lambda>channel oldest cursor limit k.
             Inr \<lparr>hr_messages = (if oldest = Some ''50'' then [hello_message] else []),
                  hr_has_more = False, hr_next_cursor = None\<rparr>)\<rparr>"

text \<open>
  A store with the conversation 7 and one message of it, created at time 5; and a
  generative service that is configured and throws.
\<close>

definition summary_state :: state where
  "summary_state =
     empty_state
       \<lparr>conversations :=
          [\<lparr>conv_id = 7, conv_slack_id = ''C1'', conv_name = ''general'', conv_type = Channel,
            last_ts_processed = Some ''100'', conv_createdAt = 0, conv_updatedAt = 0\<rparr>],
        next_conversation_id := 8,
        messages :=
          [\<lparr>row_channel_id = 7, row_ts = ''100'', row_user_id = ''U1'',
            row_text = ''is it done?'', row_thread_ts = None, row_permalink = ''https://example.com/p100'',
            row_reactions = None, row_mentions = [], row_createdAt = 5\<rparr>]\<rparr>"

definition throwing_ai_env :: env where
  "throwing_ai_env =
     quiet_env\<lparr>openai_configured := True,
               openai_summary := (\<lambda>msgs name. Inl (Thrown ''timeout''))\<rparr>"

text \<open>
  A partial failure on a store that is not empty: conversation 7 has the watermark 50
  and the message at 50; the history holds the messages at 200 and 100 (newest first),
  and the store refuses the one at 100.
\<close>

definition later_message :: slack_message where
  "later_message =
     \<lparr>msg_type = ''message'', msg_user = Some ''U3'', msg_text = ''done'',
      msg_ts = ''200'', msg_thread_ts = None, msg_reply_count = None, msg_reactions = None\<rparr>"

definition partial_state :: state where
  "partial_state =
     empty_state
       \<lparr>conversations :=
          [\<lparr>conv_id = 7, conv_slack_id = ''C1'', conv_name = ''general'', conv_type = Channel,
            last_ts_processed = Some ''50'', conv_createdAt = 0, conv_updatedAt = 0\<rparr>],
        next_conversation_id := 8,
        messages :=
          [\<lparr>row_channel_id = 7, row_ts = ''50'', row_user_id = ''U1'',
            row_text = ''hello'', row_thread_ts = None, row_permalink = [],
            row_reactions = None, row_mentions = [], row_createdAt = 0\<rparr>]\<rparr>"

definition partial_env :: env where
  "partial_env =
     one_channel_env
       \<lparr>store_fails := (\<lambda>op. case op of MessageUpsert c ts \<Rightarrow> ts = ''100'' | _ \<Rightarrow> False),
        conversations_history :=
          (\<lambda>channel oldest cursor limit k.
             Inr \<lparr>hr_messages = [later_message, hello_message], hr_has_more = False,
                  hr_next_cursor = None\<rparr>)\<rparr>"

section \<open>The mention extractor\<close>

lemma set_spread_set: "set (set_spread seen xs) = set seen \<union> set xs"
  by (induction seen xs rule: set_spread.induct) auto

lemma set_spread_distinct: "distinct seen \<Longrightarrow> distinct (set_spread seen xs)"
  by (induction seen xs rule: set_spread.induct) auto

lemma referenced_idI:
  "i \<noteq> [] \<Longrightarrow> list_all id_char i \<Longrightarrow> t = pre @ ''<@'' @ i @ ''>'' @ post \<Longrightarrow> referenced_id t i"
  unfolding referenced_id_def by blast

lemma referenced_id_Cons: "referenced_id cs i \<Longrightarrow> referenced_id (c # cs) i"
  unfolding referenced_id_def by (metis append_Cons)

lemma referenced_id_append: "referenced_id cs i \<Longrightarrow> referenced_id (pre @ cs) i"
  by (induction pre) (auto intro: referenced_id_Cons)

lemma not_id_char [simp]: "\<not> id_char CHR ''>''" "\<not> id_char CHR ''<''" "\<not> id_char CHR ''@''"
  by (simp_all add: id_char_def)

text \<open>An occurrence that starts at the head of the text is what the scan finds there.\<close>

lemma run_at_head:
  assumes "list_all id_char i"
  shows "takeWhile id_char (i @ CHR ''>'' # post) = i"
    and "dropWhile id_char (i @ CHR ''>'' # post) = CHR ''>'' # post"
  using assms by (induction i) auto

text \<open>A prefix without \<open><\<close> cannot contain the start of an occurrence.\<close>

lemma occurrence_after_prefix:
  assumes "p @ s = pre @ CHR ''<'' # t" and "CHR ''<'' \<notin> set p"
  shows "\<exists>pre'. s = pre' @ CHR ''<'' # t"
  using assms
proof (induction p arbitrary: pre)
  case Nil
  then show ?case by auto
next
  case (Cons a p)
  then obtain pre2 where "pre = a # pre2" by (cases pre) auto
  with Cons show ?case by auto
qed

lemma mention_matches_sound:
  "i \<in> set (mention_matches t) \<Longrightarrow> referenced_id t i"
proof (induction t rule: mention_matches.induct)
  case 1
  then show ?case by simp
next
  case (2 c cs)
  let ?run = "takeWhile id_char (tl cs)"
  let ?rest = "dropWhile id_char (tl cs)"
  show ?case
  proof (cases "c = CHR ''<'' \<and> cs \<noteq> [] \<and> hd cs = CHR ''@''")
    case False
    with 2 show ?thesis by (auto intro: referenced_id_Cons)
  next
    case head: True
    show ?thesis
    proof (cases "?run \<noteq> [] \<and> ?rest \<noteq> [] \<and> hd ?rest = CHR ''>''")
      case False
      with 2 head show ?thesis by (auto simp: Let_def intro: referenced_id_Cons)
    next
      case True
      have split: "c # cs = ''<@'' @ ?run @ ''>'' @ tl ?rest"
      proof -
        have "tl cs = ?run @ ?rest" by simp
        moreover have "?rest = CHR ''>'' # tl ?rest" using True by (cases ?rest) auto
        moreover have "cs = CHR ''@'' # tl cs" using head by (cases cs) auto
        ultimately show ?thesis using head by (metis append_Cons append_Nil)
      qed
      have eq: "mention_matches (c # cs) = ?run # mention_matches (tl ?rest)"
        using head True by (simp add: Let_def)
      from "2.prems" eq
      consider "i = ?run" | "i \<in> set (mention_matches (tl ?rest))"
        by auto
      then show ?thesis
      proof cases
        case 1
        have "list_all id_char ?run" by (simp add: list_all_iff) (metis set_takeWhileD)
        with True 1 split show ?thesis
          by (intro referenced_idI[where pre="[]" and post="tl ?rest"]) auto
      next
        case 2
        with "2.IH"(1)[OF head refl refl True] have "referenced_id (tl ?rest) i" by simp
        then have "referenced_id (''<@'' @ ?run @ ''>'' @ tl ?rest) i"
          using referenced_id_append[of "tl ?rest" i "''<@'' @ ?run @ ''>''"] by simp
        with split show ?thesis by simp
      qed
    qed
  qed
qed

lemma mention_matches_complete:
  "referenced_id t i \<Longrightarrow> i \<in> set (mention_matches t)"
proof (induction t rule: mention_matches.induct)
  case 1
  then show ?case by (simp add: referenced_id_def)
next
  case (2 c cs)
  let ?run = "takeWhile id_char (tl cs)"
  let ?rest = "dropWhile id_char (tl cs)"
  from "2.prems" obtain pre post where i: "i \<noteq> []" "list_all id_char i"
    and occ: "c # cs = pre @ ''<@'' @ i @ ''>'' @ post"
    unfolding referenced_id_def by blast
  show ?case
  proof (cases pre)
    case Nil
    with occ have c: "c = CHR ''<''" and cs: "cs = CHR ''@'' # i @ CHR ''>'' # post" by auto
    from cs run_at_head[OF i(2), of post] i(1)
    show ?thesis using c by (simp add: Let_def)
  next
    case (Cons a pre')
    with occ have cs: "cs = pre' @ ''<@'' @ i @ ''>'' @ post" by simp
    then have ref_cs: "referenced_id cs i" using i by (auto intro: referenced_idI)
    show ?thesis
    proof (cases "c = CHR ''<'' \<and> cs \<noteq> [] \<and> hd cs = CHR ''@''")
      case False
      with 2 ref_cs show ?thesis by auto
    next
      case head: True
      show ?thesis
      proof (cases "?run \<noteq> [] \<and> ?rest \<noteq> [] \<and> hd ?rest = CHR ''>''")
        case False
        with 2 head ref_cs show ?thesis by (auto simp: Let_def)
      next
        case True
        have rest: "?rest = CHR ''>'' # tl ?rest" using True by (cases ?rest) auto
        have "cs = (CHR ''@'' # ?run @ [CHR ''>'']) @ tl ?rest"
        proof -
          have "tl cs = ?run @ ?rest" by simp
          moreover have "cs = CHR ''@'' # tl cs" using head by (cases cs) auto
          ultimately show ?thesis using rest by (metis append_Cons append_Nil append_assoc)
        qed
        moreover have "CHR ''<'' \<notin> set (CHR ''@'' # ?run @ [CHR ''>''])"
          using set_takeWhileD[of "CHR ''<''" id_char "tl cs"] by auto
        ultimately obtain pre2 where "tl ?rest = pre2 @ CHR ''<'' # (''@'' @ i @ ''>'' @ post)"
          using occurrence_after_prefix[of "CHR ''@'' # ?run @ [CHR ''>'']" "tl ?rest" pre'
                  "''@'' @ i @ ''>'' @ post"] cs
          by auto
        then have "referenced_id (tl ?rest) i"
          using i by (auto intro: referenced_idI)
        with "2.IH"(1)[OF head refl refl True] have "i \<in> set (mention_matches (tl ?rest))" .
        moreover have "mention_matches (c # cs) = ?run # mention_matches (tl ?rest)"
          using head True by (simp add: Let_def)
        ultimately show ?thesis by simp
      qed
    qed
  qed
qed

lemma set_mention_matches: "set (mention_matches t) = {i. referenced_id t i}"
  using mention_matches_sound mention_matches_complete by blast

lemma set_extractMentions: "set (extractMentions t) = {i. referenced_id t i}"
  by (simp add: extractMentions_def set_spread_set set_mention_matches)

lemma distinct_extractMentions: "distinct (extractMentions t)"
  by (simp add: extractMentions_def set_spread_distinct)

text \<open>
  Claim C6. For every text, \<open>extractMentions\<close> returns a list without repetition that
  holds exactly the ids the text references with \<open><@ID>\<close>; it is empty exactly when the
  text references none (the function is total, so there is no error); and on
  \<open><@U1> hi <@U1> <@U2>\<close> it returns \<open>U1\<close> and \<open>U2\<close>, each once.
\<close>

theorem extractMentions_dedup:
  "distinct (extractMentions t)
   \<and> set (extractMentions t) = {i. referenced_id t i}
   \<and> (extractMentions t = []) = ({i. referenced_id t i} = {})
   \<and> extractMentions ''<@U1> hi <@U1> <@U2>'' = [''U1'', ''U2'']"
proof -
  have e: "(extractMentions t = []) = ({i. referenced_id t i} = {})"
    using set_extractMentions[of t] by (metis set_empty)
  have x: "extractMentions ''<@U1> hi <@U1> <@U2>'' = [''U1'', ''U2'']"
    by (simp add: extractMentions_def id_char_def Let_def)
  from distinct_extractMentions set_extractMentions e x show ?thesis by blast
qed

section \<open>The rate-limited request wrapper\<close>

lemma makeSlackRequest_loop_success:
  "requestFn calls = Inr v \<Longrightarrow>
   makeSlackRequest_loop requestFn maxRetries retries delay calls evs =
     \<lparr>outcome = Inr v, attempts = Suc calls, retried = evs\<rparr>"
  by (subst makeSlackRequest_loop.simps) simp

lemma slept_is_retry_after:
  "js_or (js_or (case ra of None \<Rightarrow> 0 | Some r \<Rightarrow> r) 1 * 1000) delay = retry_sleep_ms ra"
  by (simp add: js_or_def retry_sleep_ms_def split: option.splits)

lemma makeSlackRequest_loop_retry:
  "requestFn calls = Inl (RateLimitedError ra) \<Longrightarrow> retries < maxRetries \<Longrightarrow>
   makeSlackRequest_loop requestFn maxRetries retries delay calls evs =
     makeSlackRequest_loop requestFn maxRetries (Suc retries) (delay * 2) (Suc calls)
       (evs @ [\<lparr>slept_ms = retry_sleep_ms ra, backoff_ms = delay\<rparr>])"
  by (subst makeSlackRequest_loop.simps) (simp add: Let_def slept_is_retry_after del: One_nat_def)

lemma makeSlackRequest_loop_give_up:
  "requestFn calls = Inl (RateLimitedError ra) \<Longrightarrow> \<not> retries < maxRetries \<Longrightarrow>
   makeSlackRequest_loop requestFn maxRetries retries delay calls evs =
     \<lparr>outcome = Inl (RateLimitedError ra), attempts = Suc calls, retried = evs\<rparr>"
  by (subst makeSlackRequest_loop.simps) simp

lemma makeSlackRequest_loop_other:
  "requestFn calls = Inl (OtherError x) \<Longrightarrow>
   makeSlackRequest_loop requestFn maxRetries retries delay calls evs =
     \<lparr>outcome = Inl (OtherError x), attempts = Suc calls, retried = evs\<rparr>"
  by (subst makeSlackRequest_loop.simps) simp

text \<open>The run of a request that is rate-limited twice and then succeeds.\<close>

lemma twice_then_success_run:
  assumes r0: "requestFn 0 = Inl (RateLimitedError ra0)"
    and r1: "requestFn (Suc 0) = Inl (RateLimitedError ra1)"
    and r2: "requestFn (Suc (Suc 0)) = Inr v"
    and n: "Suc 0 < maxRetries"
  shows "makeSlackRequest requestFn maxRetries initialDelay =
     \<lparr>outcome = Inr v, attempts = 3,
      retried = [\<lparr>slept_ms = retry_sleep_ms ra0, backoff_ms = initialDelay\<rparr>,
                 \<lparr>slept_ms = retry_sleep_ms ra1, backoff_ms = initialDelay * 2\<rparr>]\<rparr>"
proof -
  from n have n0: "0 < maxRetries" by simp
  show ?thesis
    unfolding makeSlackRequest_def
    by (simp add: makeSlackRequest_loop_retry[of requestFn 0 ra0 0 maxRetries, OF r0 n0]
                  makeSlackRequest_loop_retry[of requestFn "Suc 0" ra1 "Suc 0" maxRetries, OF r1 n]
                  makeSlackRequest_loop_success[of requestFn "Suc (Suc 0)" v, OF r2] numeral_3_eq_3)
qed

lemma always_limited_loop:
  assumes all: "\<And>k. \<exists>ra. requestFn k = Inl (RateLimitedError ra)"
  shows "maxRetries - retries = n \<Longrightarrow> retries \<le> maxRetries \<Longrightarrow>
   attempts (makeSlackRequest_loop requestFn maxRetries retries delay calls evs) = calls + n + 1
   \<and> outcome (makeSlackRequest_loop requestFn maxRetries retries delay calls evs)
       = requestFn (calls + n)"
proof (induction n arbitrary: retries delay calls evs)
  case 0
  from all obtain ra where ra: "requestFn calls = Inl (RateLimitedError ra)" by blast
  from 0 have "\<not> retries < maxRetries" by simp
  from makeSlackRequest_loop_give_up[of requestFn calls ra retries maxRetries delay evs, OF ra this]
  show ?case by (simp add: ra)
next
  case (Suc n)
  from all obtain ra where ra: "requestFn calls = Inl (RateLimitedError ra)" by blast
  from Suc.prems have lt: "retries < maxRetries" by simp
  from Suc.prems have "maxRetries - Suc retries = n" "Suc retries \<le> maxRetries" by simp_all
  from Suc.IH[OF this]
       makeSlackRequest_loop_retry[of requestFn calls ra retries maxRetries delay evs, OF ra lt]
  show ?case by simp
qed

text \<open>
  Claim C2. With retry ceiling \<open>maxRetries\<close>: a request that is rate-limited on its first
  two attempts and succeeds on the third returns the successful result when
  \<open>maxRetries \<ge> 2\<close>; a request that is rate-limited on every attempt fails, with the
  rate-limit error of its last attempt, after exactly \<open>maxRetries + 1\<close> attempts.
\<close>

theorem makeSlackRequest_retry_ceiling:
  "(requestFn 0 = Inl (RateLimitedError ra0) \<and> requestFn 1 = Inl (RateLimitedError ra1)
      \<and> requestFn 2 = Inr v \<and> 2 \<le> maxRetries
    \<longrightarrow> outcome (makeSlackRequest requestFn maxRetries initialDelay) = Inr v
        \<and> attempts (makeSlackRequest requestFn maxRetries initialDelay) = 3)
   \<and> ((\<forall>k. \<exists>ra. requestFn k = Inl (RateLimitedError ra))
    \<longrightarrow> outcome (makeSlackRequest requestFn maxRetries initialDelay) = requestFn maxRetries
        \<and> attempts (makeSlackRequest requestFn maxRetries initialDelay) = maxRetries + 1)"
proof (intro conjI impI)
  assume a: "requestFn 0 = Inl (RateLimitedError ra0) \<and> requestFn 1 = Inl (RateLimitedError ra1)
      \<and> requestFn 2 = Inr v \<and> 2 \<le> maxRetries"
  then have r0: "requestFn 0 = Inl (RateLimitedError ra0)"
    and r1: "requestFn (Suc 0) = Inl (RateLimitedError ra1)"
    and r2: "requestFn (Suc (Suc 0)) = Inr v"
    and n1: "Suc 0 < maxRetries"
    by (auto simp: numeral_2_eq_2)
  note run = twice_then_success_run[of requestFn ra0 ra1 v maxRetries initialDelay, OF r0 r1 r2 n1]
  show "outcome (makeSlackRequest requestFn maxRetries initialDelay) = Inr v"
    by (simp add: run)
  show "attempts (makeSlackRequest requestFn maxRetries initialDelay) = 3"
    by (simp add: run)
next
  assume "\<forall>k. \<exists>ra. requestFn k = Inl (RateLimitedError ra)"
  then have all: "\<And>k. \<exists>ra. requestFn k = Inl (RateLimitedError ra)" by blast
  from always_limited_loop[of requestFn maxRetries 0 maxRetries initialDelay 0 "[]", OF all]
  show "outcome (makeSlackRequest requestFn maxRetries initialDelay) = requestFn maxRetries"
    and "attempts (makeSlackRequest requestFn maxRetries initialDelay) = maxRetries + 1"
    by (simp_all add: makeSlackRequest_def)
qed

theorem makeSlackRequest_retry_ceiling_witness:
  "outcome (makeSlackRequest twice_limited 3 1000) = Inr ''ok''
   \<and> attempts (makeSlackRequest twice_limited 3 1000) = 3
   \<and> outcome (makeSlackRequest always_limited 2 1000) = Inl (RateLimitedError (Some 1))
   \<and> attempts (makeSlackRequest always_limited 2 1000) = 3"
proof -
  have "outcome (makeSlackRequest twice_limited 3 1000) = Inr ''ok''
        \<and> attempts (makeSlackRequest twice_limited 3 1000) = 3"
    using makeSlackRequest_retry_ceiling[of twice_limited "Some 1" "Some 1" "''ok''" 3 1000]
    by (simp add: twice_limited_def)
  moreover have "outcome (makeSlackRequest always_limited 2 1000) = Inl (RateLimitedError (Some 1))
        \<and> attempts (makeSlackRequest always_limited 2 1000) = 3"
    using makeSlackRequest_retry_ceiling[of always_limited "Some 1" "Some 1" "''ok''" 2 1000]
    by (auto simp: always_limited_def)
  ultimately show ?thesis by blast
qed





section \<open>The task heuristic extractor\<close>

lemma extractTasks_loop_skip:
  "re_match e p (sm_text message) = None
   \<or> (\<exists>matches. re_match e p (sm_text message) = Some matches
         \<and> (\<not> 1 < length matches \<or> length (trim (join_space (drop 1 matches))) < 5)) \<Longrightarrow>
   extractTasks_loop e message (p # ps) tasks = extractTasks_loop e message ps tasks"
  by (auto simp: Let_def simp del: One_nat_def)

lemma extractTasks_loop_emit:
  "re_match e p (sm_text message) = Some matches \<Longrightarrow> 1 < length matches \<Longrightarrow>
   \<not> length (trim (join_space (drop 1 matches))) < 5 \<Longrightarrow>
   extractTasks_loop e message (p # ps) tasks =
     extractTasks_loop e message ps
       (tasks @ [\<lparr>task_title = trim (join_space (drop 1 matches)),
                  owner_user_id = (case extractMentions (sm_text message) of [m] \<Rightarrow> Some m | _ \<Rightarrow> None),
                  due_date = (case chrono_parse e (sm_text message) of [] \<Rightarrow> None | d # ds \<Rightarrow> Some d),
                  confidence = 6 / 10,
                  source_ts = sm_ts message,
                  source_permalink = sm_permalink message\<rparr>])"
  by (simp add: Let_def del: One_nat_def)

lemma extractTasks_loop_owner:
  "t \<in> set (extractTasks_loop e message ps tasks) \<Longrightarrow>
   t \<in> set tasks
   \<or> owner_user_id t = (case extractMentions (sm_text message) of [m] \<Rightarrow> Some m | _ \<Rightarrow> None)"
proof (induction ps arbitrary: tasks)
  case Nil
  then show ?case by simp
next
  case (Cons p ps)
  show ?case
  proof (cases "re_match e p (sm_text message)")
    case None
    then have "extractTasks_loop e message (p # ps) tasks = extractTasks_loop e message ps tasks"
      by (intro extractTasks_loop_skip) blast
    with Cons.prems have "t \<in> set (extractTasks_loop e message ps tasks)" by simp
    then show ?thesis by (rule Cons.IH)
  next
    case (Some matches)
    show ?thesis
    proof (cases "1 < length matches \<and> \<not> length (trim (join_space (drop 1 matches))) < 5")
      case False
      with Some have "extractTasks_loop e message (p # ps) tasks = extractTasks_loop e message ps tasks"
        by (intro extractTasks_loop_skip) blast
      with Cons.prems have "t \<in> set (extractTasks_loop e message ps tasks)" by simp
      then show ?thesis by (rule Cons.IH)
    next
      case True
      then have l: "1 < length matches" and ti: "\<not> length (trim (join_space (drop 1 matches))) < 5"
        by simp_all
      from Cons.prems Cons.IH show ?thesis
        unfolding extractTasks_loop_emit[OF Some l ti] by fastforce
    qed
  qed
qed

lemma extractTasksHeuristic_owner:
  "t \<in> set (extractTasksHeuristic e message) \<Longrightarrow>
   owner_user_id t = (case extractMentions (sm_text message) of [m] \<Rightarrow> Some m | _ \<Rightarrow> None)"
  using extractTasks_loop_owner[of t e message TASK_PATTERNS "[]"]
  by (simp add: extractTasksHeuristic_def)

lemma single_mention_iff:
  "(extractMentions s = [u]) = ({i. referenced_id s i} = {u})"
proof
  assume "extractMentions s = [u]"
  then show "{i. referenced_id s i} = {u}"
    using set_extractMentions[of s] by simp
next
  assume a: "{i. referenced_id s i} = {u}"
  then have s: "set (extractMentions s) = {u}" by (simp add: set_extractMentions)
  have "length (extractMentions s) = card (set (extractMentions s))"
    using distinct_extractMentions[of s] by (simp add: distinct_card)
  with s have "length (extractMentions s) = 1" by simp
  then obtain x where "extractMentions s = [x]"
    by (cases "extractMentions s") auto
  with s show "extractMentions s = [u]" by simp
qed

lemma card_mentions: "card {i. referenced_id s i} = length (extractMentions s)"
  using distinct_extractMentions[of s] set_extractMentions[of s]
  by (metis distinct_card)

text \<open>
  Claim C7. Every task that \<open>extractTasksHeuristic\<close> produces for a message has the owner
  \<open>u\<close> exactly when \<open>u\<close> is the one id the message text references, and has no owner
  exactly when the number of distinct ids referenced is not one (none, or two and more).
\<close>

theorem extractTasksHeuristic_owner_single_mention:
  assumes "t \<in> set (extractTasksHeuristic e message)"
  shows "(owner_user_id t = Some u) = ({i. referenced_id (sm_text message) i} = {u})
     \<and> (owner_user_id t = None) = (card {i. referenced_id (sm_text message) i} \<noteq> 1)"
proof -
  note o = extractTasksHeuristic_owner[OF assms]
  have "(owner_user_id t = Some u) = ({i. referenced_id (sm_text message) i} = {u})"
    unfolding single_mention_iff[symmetric] o
    by (auto split: list.splits)
  moreover have "(owner_user_id t = None) = (card {i. referenced_id (sm_text message) i} \<noteq> 1)"
    unfolding card_mentions o
    by (auto split: list.splits)
  ultimately show ?thesis by blast
qed

lemma todo_env_one_mention:
  "extractTasksHeuristic todo_env one_mention_message =
     [\<lparr>task_title = ''<@U1> finish the report'', owner_user_id = Some ''U1'',
       due_date = None, confidence = 6 / 10, source_ts = ''100'',
       source_permalink = ''https://example.com/p100''\<rparr>]"
  by (simp add: extractTasksHeuristic_def TASK_PATTERNS_def todo_env_def quiet_env_def
        one_mention_message_def extractMentions_def id_char_def trim_def is_space_def Let_def)

lemma todo_env_two_mentions:
  "extractTasksHeuristic todo_env two_mention_message =
     [\<lparr>task_title = ''<@U1> <@U2> finish the report'', owner_user_id = None,
       due_date = None, confidence = 6 / 10, source_ts = ''101'',
       source_permalink = ''https://example.com/p101''\<rparr>]"
  by (simp add: extractTasksHeuristic_def TASK_PATTERNS_def todo_env_def quiet_env_def
        two_mention_message_def extractMentions_def id_char_def trim_def is_space_def Let_def)

theorem extractTasksHeuristic_owner_single_mention_witness:
  "map owner_user_id (extractTasksHeuristic todo_env one_mention_message) = [Some ''U1'']
   \<and> {i. referenced_id (sm_text one_mention_message) i} = {''U1''}
   \<and> map owner_user_id (extractTasksHeuristic todo_env two_mention_message) = [None]
   \<and> card {i. referenced_id (sm_text two_mention_message) i} \<noteq> 1"
proof -
  have "{i. referenced_id (sm_text one_mention_message) i} = {''U1''}"
    using extractTasksHeuristic_owner_single_mention
            [of "hd (extractTasksHeuristic todo_env one_mention_message)" todo_env
                one_mention_message "''U1''"]
    by (simp add: todo_env_one_mention)
  moreover have "card {i. referenced_id (sm_text two_mention_message) i} \<noteq> 1"
    using extractTasksHeuristic_owner_single_mention
            [of "hd (extractTasksHeuristic todo_env two_mention_message)" todo_env
                two_mention_message "''U1''"]
    by (simp add: todo_env_two_mentions)
  ultimately show ?thesis
    by (simp add: todo_env_one_mention todo_env_two_mentions)
qed

section \<open>The user directory cache\<close>

lemma slack_call_other:
  "requestFn 0 = Inl (OtherError x) \<Longrightarrow> slack_call e requestFn = Inl (SlackError (OtherError x))"
  by (simp add: slack_call_def makeSlackRequest_def
        makeSlackRequest_loop_other[of requestFn 0 x])

lemma slack_call_success:
  "requestFn 0 = Inr v \<Longrightarrow> slack_call e requestFn = Inr v"
  by (simp add: slack_call_def makeSlackRequest_def
        makeSlackRequest_loop_success[of requestFn 0 v])

lemma getUserInfo_lookup_fails:
  assumes "slack_call e (users_info e userId) = Inl err
           \<or> slack_call e (users_info e userId) = Inr None"
    and "\<forall>item. userCache st userId = Some item \<longrightarrow> \<not> now e - uc_timestamp item < USER_CACHE_TTL"
  shows "getUserInfo e userId st = (None, st)"
proof -
  from assms(1) have "\<exists>x. getUserInfo_try e userId st = Inl x"
    by (auto simp: getUserInfo_try_def)
  with assms(2) show ?thesis
    by (auto simp: getUserInfo_def split: option.splits)
qed

lemma quiet_env_lookup_fails:
  "slack_call quiet_env (users_info quiet_env userId)
     = Inl (SlackError (OtherError ''user_not_found''))"
  by (rule slack_call_other) (simp add: quiet_env_def)

text \<open>
  Claim C9 at its failing input. For a user the platform does not know, with an empty
  cache, \<open>getUserInfo\<close> returns \<open>null\<close>: no placeholder record comes back, and none is
  written to the store or the cache.
\<close>

theorem getUserInfo_unknown_user_returns_null:
  "slack_call quiet_env (users_info quiet_env ''U404'')
     = Inl (SlackError (OtherError ''user_not_found''))
   \<and> fst (getUserInfo quiet_env ''U404'' empty_state) = None
   \<and> users (snd (getUserInfo quiet_env ''U404'' empty_state)) ''U404'' = None
   \<and> userCache (snd (getUserInfo quiet_env ''U404'' empty_state)) ''U404'' = None"
  by (simp add: quiet_env_lookup_fails getUserInfo_def getUserInfo_try_def empty_state_def)

section \<open>Message persistence\<close>

lemma getUserInfo_messages: "messages (snd (getUserInfo e userId st)) = messages st"
  by (auto simp: getUserInfo_def getUserInfo_try_def Let_def split: option.splits sum.splits)

lemma resolve_mentions_messages: "messages (resolve_mentions e ids st) = messages st"
  by (induction ids arbitrary: st) (simp_all add: getUserInfo_messages)

lemma upsert_message_stored: "snd (upsert_message table new) \<in> set (fst (upsert_message table new))"
  by (induction table) (auto simp: Let_def split: prod.splits)

lemma upsert_message_fields:
  "row_channel_id (snd (upsert_message table new)) = row_channel_id new
   \<and> row_ts (snd (upsert_message table new)) = row_ts new
   \<and> row_text (snd (upsert_message table new)) = row_text new
   \<and> row_permalink (snd (upsert_message table new)) = row_permalink new"
  by (induction table) (auto simp: Let_def split: prod.splits)

lemma processMessage_skip:
  "\<not> truthy (msg_user message) \<or> msg_type message \<noteq> ''message'' \<Longrightarrow>
   processMessage e message channelId dbId st = (None, st)"
  by (auto simp: processMessage_def processMessage_try_def)

lemma processMessage_store_fails:
  "store_fails e (MessageUpsert dbId (msg_ts message)) \<Longrightarrow>
   fst (processMessage e message channelId dbId st) = None
   \<and> messages (snd (processMessage e message channelId dbId st)) = messages st"
  by (auto simp: processMessage_def processMessage_try_def Let_def resolve_mentions_messages)

lemma processMessage_stored:
  assumes "truthy (msg_user message)" "msg_type message = ''message''"
    "\<not> store_fails e (MessageUpsert dbId (msg_ts message))"
  shows "\<exists>row. fst (processMessage e message channelId dbId st) = Some row
       \<and> row \<in> set (messages (snd (processMessage e message channelId dbId st)))
       \<and> row_channel_id row = dbId \<and> row_ts row = msg_ts message
       \<and> row_permalink row = getPermalink e channelId (msg_ts message)"
proof -
  let ?new = "\<lparr>row_channel_id = dbId,
                row_ts = msg_ts message,
                row_user_id = (case msg_user message of Some u \<Rightarrow> u | None \<Rightarrow> []),
                row_text = msg_text message,
                row_thread_ts = msg_thread_ts message,
                row_permalink = getPermalink e channelId (msg_ts message),
                row_reactions = format_reactions (msg_reactions message),
                row_mentions = extractMentions (msg_text message),
                row_createdAt = now e\<rparr>"
  let ?st1 = "resolve_mentions e (extractMentions (msg_text message)) st"
  let ?up = "upsert_message (messages ?st1) ?new"
  have run: "processMessage e message channelId dbId st
             = (Some (snd ?up), ?st1\<lparr>messages := fst ?up\<rparr>)"
    using assms
    by (simp add: processMessage_def processMessage_try_def Let_def split: prod.splits)
  show ?thesis
    unfolding run
    using upsert_message_stored[of "messages ?st1" ?new] upsert_message_fields[of "messages ?st1" ?new]
    by simp
qed

lemma quiet_env_permalink: "getPermalink quiet_env channel ts = []"
proof -
  have "slack_call quiet_env (chat_getPermalink quiet_env channel ts)
          = Inl (SlackError (OtherError ''message_not_found''))"
    by (rule slack_call_other) (simp add: quiet_env_def)
  then show ?thesis by (simp add: getPermalink_def)
qed

lemma quiet_env_getUserInfo: "getUserInfo quiet_env userId empty_state = (None, empty_state)"
  by (rule getUserInfo_lookup_fails[where err = "SlackError (OtherError ''user_not_found'')"])
     (simp_all add: quiet_env_lookup_fails empty_state_def)

lemma quiet_env_hello_message:
  "processMessage quiet_env hello_message ''C1'' 7 empty_state =
     (Some \<lparr>row_channel_id = 7, row_ts = ''100'', row_user_id = ''U1'', row_text = ''hi <@U2>'',
            row_thread_ts = None, row_permalink = [], row_reactions = None,
            row_mentions = [''U2''], row_createdAt = 0\<rparr>,
      empty_state\<lparr>messages :=
        [\<lparr>row_channel_id = 7, row_ts = ''100'', row_user_id = ''U1'', row_text = ''hi <@U2>'',
          row_thread_ts = None, row_permalink = [], row_reactions = None,
          row_mentions = [''U2''], row_createdAt = 0\<rparr>]\<rparr>)"
proof -
  have m: "extractMentions ''hi <@U2>'' = [''U2'']"
    by (simp add: extractMentions_def id_char_def Let_def)
  have f: "\<not> store_fails quiet_env (MessageUpsert 7 (msg_ts hello_message))" "now quiet_env = 0"
    by (simp_all add: quiet_env_def)
  have e: "messages empty_state = []" by (simp add: empty_state_def)
  have h: "truthy (msg_user hello_message)" "msg_type hello_message = ''message''"
     "msg_ts hello_message = ''100''" "msg_text hello_message = ''hi <@U2>''"
     "msg_thread_ts hello_message = None" "msg_reactions hello_message = None"
     "msg_user hello_message = Some ''U1''"
    by (simp_all add: hello_message_def truthy_def)
  show ?thesis
    unfolding processMessage_def processMessage_try_def
    using f by (simp add: m quiet_env_getUserInfo e h quiet_env_permalink format_reactions_def Let_def truthy_def)
qed

text \<open>
  Claim C10, as stated, fails for a failed enrichment: the permalink of the message and
  the user it mentions cannot be looked up, and \<open>processMessage\<close> still stores the message
  (with an empty permalink) and returns the stored row.
\<close>

theorem processMessage_enrichment_failure_counterexample:
  "getPermalink quiet_env ''C1'' (msg_ts hello_message) = []
   \<and> fst (getUserInfo quiet_env ''U2'' empty_state) = None
   \<and> fst (processMessage quiet_env hello_message ''C1'' 7 empty_state) \<noteq> None
   \<and> messages (snd (processMessage quiet_env hello_message ''C1'' 7 empty_state))
       \<noteq> messages empty_state"
proof -
  have "messages empty_state = []" by (simp add: empty_state_def)
  then show ?thesis
    by (simp add: quiet_env_permalink quiet_env_getUserInfo quiet_env_hello_message)
qed

text \<open>
  Claim C10, amended. \<open>processMessage\<close> has no error result, so it never raises to its
  caller. For a message without author id, or whose type is not \<open>message\<close>, it returns
  \<open>null\<close> and changes nothing. For a message whose upsert fails it returns \<open>null\<close> and
  leaves the stored message rows as they were. A failed enrichment does not fail the
  message: whenever the author and the type are there and the upsert succeeds, the row
  is stored and returned, with whatever permalink \<open>getPermalink\<close> gave (the empty string
  after a failed lookup).
\<close>

theorem processMessage_null_cases:
  "(\<not> truthy (msg_user message) \<or> msg_type message \<noteq> ''message''
      \<longrightarrow> processMessage e message channelId dbId st = (None, st))
   \<and> (store_fails e (MessageUpsert dbId (msg_ts message))
      \<longrightarrow> fst (processMessage e message channelId dbId st) = None
          \<and> messages (snd (processMessage e message channelId dbId st)) = messages st)
   \<and> (truthy (msg_user message) \<and> msg_type message = ''message''
        \<and> \<not> store_fails e (MessageUpsert dbId (msg_ts message))
      \<longrightarrow> (\<exists>row. fst (processMessage e message channelId dbId st) = Some row
             \<and> row \<in> set (messages (snd (processMessage e message channelId dbId st)))
             \<and> row_channel_id row = dbId \<and> row_ts row = msg_ts message
             \<and> row_permalink row = getPermalink e channelId (msg_ts message)))"
  using processMessage_skip[of message e channelId dbId st]
        processMessage_store_fails[of e dbId message channelId st]
        processMessage_stored[of message e dbId channelId st]
  by blast

theorem processMessage_null_cases_witness:
  "processMessage quiet_env system_message ''C1'' 7 empty_state = (None, empty_state)
   \<and> fst (processMessage failing_store_env hello_message ''C1'' 7 empty_state) = None
   \<and> messages (snd (processMessage failing_store_env hello_message ''C1'' 7 empty_state))
       = messages empty_state
   \<and> fst (processMessage quiet_env hello_message ''C1'' 7 empty_state) \<noteq> None"
proof -
  have "processMessage quiet_env system_message ''C1'' 7 empty_state = (None, empty_state)"
    using processMessage_null_cases[of system_message quiet_env "''C1''" 7 empty_state]
    by (simp add: system_message_def truthy_def)
  moreover have "fst (processMessage failing_store_env hello_message ''C1'' 7 empty_state) = None
     \<and> messages (snd (processMessage failing_store_env hello_message ''C1'' 7 empty_state))
         = messages empty_state"
    using processMessage_null_cases[of hello_message failing_store_env "''C1''" 7 empty_state]
    by (simp add: failing_store_env_def)
  moreover have "fst (processMessage quiet_env hello_message ''C1'' 7 empty_state) \<noteq> None"
    using processMessage_null_cases[of hello_message quiet_env "''C1''" 7 empty_state]
    by (auto simp: hello_message_def truthy_def quiet_env_def)
  ultimately show ?thesis by blast
qed

section \<open>The ingestion orchestrator\<close>

lemma getUserInfo_conversations: "conversations (snd (getUserInfo e userId st)) = conversations st"
  by (auto simp: getUserInfo_def getUserInfo_try_def Let_def split: option.splits sum.splits)

lemma resolve_mentions_conversations: "conversations (resolve_mentions e ids st) = conversations st"
  by (induction ids arbitrary: st) (simp_all add: getUserInfo_conversations)

lemma processMessage_conversations:
  "conversations (snd (processMessage e message channelId dbId st)) = conversations st"
  by (auto simp: processMessage_def processMessage_try_def Let_def resolve_mentions_conversations
           split: prod.splits sum.splits)

lemma process_batch_conversations:
  "conversations (snd (process_batch e msgs channelId dbId lastTs st)) = conversations st"
  by (induction msgs arbitrary: lastTs st) (simp_all add: Let_def processMessage_conversations)

lemma js_gt_trans:
  "js_gt a b \<Longrightarrow> \<not> js_gt c b \<Longrightarrow> \<not> js_gt c a"
  by (auto simp: js_gt_def split: option.splits)

lemma js_gt_irrefl: "\<not> js_gt a a"
  by (auto simp: js_gt_def split: option.splits)

lemma latest_of_step:
  assumes "latest_of e lastTs seen" and "ts \<noteq> []"
  shows "latest_of e
           (if \<not> truthy lastTs
               \<or> js_gt (parseFloat e ts) (parseFloat e (case lastTs of Some l \<Rightarrow> l | None \<Rightarrow> []))
            then Some ts else lastTs)
           (insert ts seen)"
proof (cases lastTs)
  case None
  with assms show ?thesis by (auto simp: latest_of_def truthy_def js_gt_irrefl)
next
  case (Some t)
  with assms have t: "t \<noteq> []" "t \<in> seen" "\<forall>s\<in>seen. \<not> js_gt (parseFloat e s) (parseFloat e t)"
    by (auto simp: latest_of_def)
  show ?thesis
  proof (cases "js_gt (parseFloat e ts) (parseFloat e t)")
    case True
    with t have "\<forall>s\<in>seen. \<not> js_gt (parseFloat e s) (parseFloat e ts)"
      using js_gt_trans by blast
    with True Some assms(2) show ?thesis
      by (auto simp: latest_of_def truthy_def js_gt_irrefl)
  next
    case False
    with Some t show ?thesis by (auto simp: latest_of_def truthy_def)
  qed
qed

lemma process_batch_latest:
  "latest_of e lastTs seen \<Longrightarrow> \<forall>m\<in>set msgs. msg_ts m \<noteq> [] \<Longrightarrow>
   latest_of e (fst (process_batch e msgs channelId dbId lastTs st)) (seen \<union> msg_ts ` set msgs)"
proof (induction msgs arbitrary: lastTs seen st)
  case Nil
  then show ?case by simp
next
  case (Cons m msgs)
  let ?l = "if \<not> truthy lastTs
               \<or> js_gt (parseFloat e (msg_ts m)) (parseFloat e (case lastTs of Some l \<Rightarrow> l | None \<Rightarrow> []))
            then Some (msg_ts m) else lastTs"
  from Cons.prems have "latest_of e ?l (insert (msg_ts m) seen)"
    by (intro latest_of_step) auto
  from Cons.IH[OF this, of "snd (processMessage e m channelId dbId st)"] Cons.prems(2)
  show ?case by (simp add: Let_def Un_commute insert_commute)
qed

lemma upsert_conversation_first:
  "\<exists>rest. filter (\<lambda>r. conv_slack_id r = conv_slack_id new) (fst (upsert_conversation table new))
           = snd (upsert_conversation table new) # rest"
  by (induction table) (auto simp: Let_def split: prod.splits)

lemma upsert_conversation_slack_id:
  "conv_slack_id (snd (upsert_conversation table new)) = conv_slack_id new"
  by (induction table) (auto simp: Let_def split: prod.splits)

lemma ensureConversation_first:
  assumes "ensureConversation e conv st = (Inr db, st1)"
  shows "\<exists>rest. filter (\<lambda>r. conv_slack_id r = ch_id conv) (conversations st1) = db # rest"
proof -
  from assms obtain ty where
    up: "upsert_conversation (conversations st)
           \<lparr>conv_id = next_conversation_id st, conv_slack_id = ch_id conv,
            conv_name = ch_name conv, conv_type = ty, last_ts_processed = None,
            conv_createdAt = now e, conv_updatedAt = now e\<rparr> = (conversations st1, db)"
    by (auto simp: ensureConversation_def Let_def split: option.splits if_splits prod.splits)
  from upsert_conversation_first[of "\<lparr>conv_id = next_conversation_id st, conv_slack_id = ch_id conv,
            conv_name = ch_name conv, conv_type = ty, last_ts_processed = None,
            conv_createdAt = now e, conv_updatedAt = now e\<rparr>" "conversations st"]
  show ?thesis by (simp add: up)
qed

lemma watermark_after_update:
  assumes "filter (\<lambda>r. conv_slack_id r = k) (conversations st) = db # rest"
  shows "watermark (st\<lparr>conversations := update_last_ts (conversations st) (conv_id db) t\<rparr>) k = Some t"
proof -
  have "filter (\<lambda>r. conv_slack_id r = k) (update_last_ts (conversations st) (conv_id db) t)
        = map (\<lambda>r. if conv_id r = conv_id db then r\<lparr>last_ts_processed := Some t\<rparr> else r)
            (filter (\<lambda>r. conv_slack_id r = k) (conversations st))"
    unfolding update_last_ts_def filter_map by (rule arg_cong[where f="map _"]) (rule filter_cong, auto)
  with assms show ?thesis by (simp add: watermark_def)
qed

lemma fst_upsert_message_Cons:
  "fst (upsert_message (r # rs) new) =
     (if row_channel_id r = row_channel_id new \<and> row_ts r = row_ts new
      then r\<lparr>row_text := row_text new,
             row_thread_ts := (case row_thread_ts new of None \<Rightarrow> row_thread_ts r | Some t \<Rightarrow> Some t),
             row_permalink := row_permalink new,
             row_reactions := (case row_reactions new of None \<Rightarrow> row_reactions r | Some x \<Rightarrow> Some x),
             row_mentions := row_mentions new\<rparr> # rs
      else r # fst (upsert_message rs new))"
  by (simp add: Let_def split: prod.splits)

lemma upsert_message_other_key:
  "row_channel_id new \<noteq> c \<or> row_ts new \<noteq> t \<Longrightarrow>
   filter (\<lambda>r. row_channel_id r = c \<and> row_ts r = t) (fst (upsert_message table new))
     = filter (\<lambda>r. row_channel_id r = c \<and> row_ts r = t) table"
proof (induction table)
  case Nil
  then show ?case by auto
next
  case (Cons r rs)
  then show ?case unfolding fst_upsert_message_Cons by auto
qed

lemma upsert_message_keeps:
  "\<exists>row\<in>set table. row_channel_id row = c \<and> row_ts row = t \<Longrightarrow>
   \<exists>row\<in>set (fst (upsert_message table new)). row_channel_id row = c \<and> row_ts row = t"
proof (induction table)
  case Nil
  then show ?case by simp
next
  case (Cons r rs)
  show ?case
  proof (cases "row_channel_id r = c \<and> row_ts r = t")
    case True
    then show ?thesis unfolding fst_upsert_message_Cons by auto
  next
    case False
    with Cons.prems have ex: "\<exists>row\<in>set rs. row_channel_id row = c \<and> row_ts row = t" by auto
    from Cons.IH[OF ex] ex show ?thesis unfolding fst_upsert_message_Cons by auto
  qed
qed

lemma processMessage_messages:
  "messages (snd (processMessage e message channelId dbId st)) =
     (if \<not> truthy (msg_user message) \<or> msg_type message \<noteq> ''message''
         \<or> store_fails e (MessageUpsert dbId (msg_ts message))
      then messages st
      else fst (upsert_message (messages st)
                  \<lparr>row_channel_id = dbId,
                   row_ts = msg_ts message,
                   row_user_id = (case msg_user message of Some u \<Rightarrow> u | None \<Rightarrow> []),
                   row_text = msg_text message,
                   row_thread_ts = msg_thread_ts message,
                   row_permalink = getPermalink e channelId (msg_ts message),
                   row_reactions = format_reactions (msg_reactions message),
                   row_mentions = extractMentions (msg_text message),
                   row_createdAt = now e\<rparr>))"
  by (simp add: processMessage_def processMessage_try_def Let_def resolve_mentions_messages
           split: prod.splits)

lemma processMessage_refused_key:
  assumes "store_fails e (MessageUpsert dbId t)"
  shows "filter (\<lambda>r. row_channel_id r = dbId \<and> row_ts r = t)
           (messages (snd (processMessage e message channelId dbId st)))
         = filter (\<lambda>r. row_channel_id r = dbId \<and> row_ts r = t) (messages st)"
proof (cases "\<not> truthy (msg_user message) \<or> msg_type message \<noteq> ''message''
              \<or> store_fails e (MessageUpsert dbId (msg_ts message))")
  case True
  then show ?thesis by (simp only: processMessage_messages if_True)
next
  case False
  with assms have "msg_ts message \<noteq> t" by auto
  with False show ?thesis
    by (simp only: processMessage_messages if_False) (rule upsert_message_other_key, simp)
qed

lemma processMessage_keeps:
  assumes "\<exists>row\<in>set (messages st). row_channel_id row = c \<and> row_ts row = t"
  shows "\<exists>row\<in>set (messages (snd (processMessage e message channelId dbId st))).
           row_channel_id row = c \<and> row_ts row = t"
  unfolding processMessage_messages
  using assms upsert_message_keeps[of "messages st" c t] by auto

lemma process_batch_refused_key:
  "store_fails e (MessageUpsert dbId t) \<Longrightarrow>
   filter (\<lambda>r. row_channel_id r = dbId \<and> row_ts r = t)
     (messages (snd (process_batch e msgs channelId dbId lastTs st)))
   = filter (\<lambda>r. row_channel_id r = dbId \<and> row_ts r = t) (messages st)"
  by (induction msgs arbitrary: lastTs st) (simp_all add: Let_def processMessage_refused_key)

lemma process_batch_keeps:
  "\<exists>row\<in>set (messages st). row_channel_id row = c \<and> row_ts row = t \<Longrightarrow>
   \<exists>row\<in>set (messages (snd (process_batch e msgs channelId dbId lastTs st))).
      row_channel_id row = c \<and> row_ts row = t"
proof (induction msgs arbitrary: lastTs st)
  case Nil
  then show ?case by simp
next
  case (Cons m msgs)
  from processMessage_keeps[OF Cons.prems, of e m channelId dbId]
  show ?case by (simp add: Let_def Cons.IH)
qed

lemma process_batch_stores:
  "m \<in> set msgs \<Longrightarrow> truthy (msg_user m) \<Longrightarrow> msg_type m = ''message'' \<Longrightarrow>
   \<not> store_fails e (MessageUpsert dbId (msg_ts m)) \<Longrightarrow>
   \<exists>row\<in>set (messages (snd (process_batch e msgs channelId dbId lastTs st))).
      row_channel_id row = dbId \<and> row_ts row = msg_ts m"
proof (induction msgs arbitrary: lastTs st)
  case Nil
  then show ?case by simp
next
  case (Cons a msgs)
  show ?case
  proof (cases "m = a")
    case True
    from processMessage_stored[of a e dbId channelId st] Cons.prems True
    have "\<exists>row\<in>set (messages (snd (processMessage e a channelId dbId st))).
            row_channel_id row = dbId \<and> row_ts row = msg_ts m"
      by auto
    from process_batch_keeps[OF this]
    show ?thesis by (simp add: Let_def)
  next
    case False
    with Cons.prems have "m \<in> set msgs" by simp
    from Cons.IH[OF this Cons.prems(2-4)]
    show ?thesis by (simp add: Let_def)
  qed
qed

lemma ensureConversation_messages:
  "ensureConversation e conv st = (r, st1) \<Longrightarrow> messages st1 = messages st"
  by (auto simp: ensureConversation_def Let_def split: option.splits if_splits prod.splits)

lemma upsert_conversation_last_ts:
  "last_ts_processed (snd (upsert_conversation table new)) =
     (case filter (\<lambda>r. conv_slack_id r = conv_slack_id new) table of
        [] \<Rightarrow> last_ts_processed new
      | r # rs \<Rightarrow> last_ts_processed r)"
  by (induction table) (auto simp: Let_def split: prod.splits)

lemma ensureConversation_watermark:
  assumes "ensureConversation e conv st = (Inr db, st1)"
  shows "last_ts_processed db = watermark st (ch_id conv)"
proof -
  from assms obtain ty where
    up: "upsert_conversation (conversations st)
           \<lparr>conv_id = next_conversation_id st, conv_slack_id = ch_id conv,
            conv_name = ch_name conv, conv_type = ty, last_ts_processed = None,
            conv_createdAt = now e, conv_updatedAt = now e\<rparr> = (conversations st1, db)"
    by (auto simp: ensureConversation_def Let_def split: option.splits if_splits prod.splits)
  from upsert_conversation_last_ts[of "conversations st" "\<lparr>conv_id = next_conversation_id st, conv_slack_id = ch_id conv,
            conv_name = ch_name conv, conv_type = ty, last_ts_processed = None,
            conv_createdAt = now e, conv_updatedAt = now e\<rparr>"]
  show ?thesis by (simp add: up watermark_def split: list.splits)
qed

text \<open>
  Claim C1, as stated, fails: the store refuses the message at 100 of a batch of two,
  that message is not persisted, and the watermark of the conversation is advanced to
  200, past it.
\<close>

theorem ingest_watermark_past_unpersisted_counterexample:
  "stored_after (ingestAllConversations partial_env None partial_state) ''C1''
     = Some ([''50'', ''200''], Some ''200'')
   \<and> store_fails partial_env (MessageUpsert 7 ''100'')
   \<and> js_gt (parseFloat partial_env ''200'') (parseFloat partial_env ''100'')"
  by code_simp

text \<open>
  Claim C1, amended. Take a conversation whose pass reaches its end (it is accessible,
  its row is ensured, the fetch returns a non-empty batch of messages with timestamps,
  the update of the row succeeds) and whose batch lies after the stored watermark. Then
  \<open>processMessage\<close> has been attempted on every message of the batch before the
  watermark is written: every message with an author and the type \<open>message\<close> whose
  upsert succeeds is in the store, and a message whose upsert fails leaves the rows of
  its key as they were. The watermark is advanced to a timestamp of the batch that no
  timestamp of the batch exceeds, later than the stored one, whether or not the messages
  were persisted: a message whose persistence fails does not hold it back.
\<close>

theorem ingest_watermark_is_latest_of_batch:
  assumes info: "slack_call e (conversations_info e (ch_id conv)) = Inr True"
    and ens: "ensureConversation e conv st = (Inr db, st1)"
    and fetch: "fetchMessages e (ch_id conv)
                  (if \<not> truthy since \<and> truthy (last_ts_processed db)
                   then last_ts_processed db else since) 1000 = Some (Inr msgs)"
    and batch: "msgs \<noteq> []" "\<forall>m\<in>set msgs. msg_ts m \<noteq> []"
    and later: "\<forall>w. watermark st (ch_id conv) = Some w \<longrightarrow>
                  (\<forall>m\<in>set msgs. js_gt (parseFloat e (msg_ts m)) (parseFloat e w))"
    and upd: "\<not> store_fails e (ConversationUpdate (conv_id db))"
  shows "\<exists>st' t. ingestConversation e since conv st = Some st'
           \<and> watermark st' (ch_id conv) = Some t
           \<and> t \<in> msg_ts ` set msgs
           \<and> (\<forall>m\<in>set msgs. \<not> js_gt (parseFloat e (msg_ts m)) (parseFloat e t))
           \<and> (\<forall>w. watermark st (ch_id conv) = Some w \<longrightarrow> js_gt (parseFloat e t) (parseFloat e w))
           \<and> (\<forall>m\<in>set msgs.
                 truthy (msg_user m) \<and> msg_type m = ''message''
                 \<and> \<not> store_fails e (MessageUpsert (conv_id db) (msg_ts m))
                 \<longrightarrow> (\<exists>row\<in>set (messages st').
                        row_channel_id row = conv_id db \<and> row_ts row = msg_ts m))
           \<and> (\<forall>m\<in>set msgs.
                 store_fails e (MessageUpsert (conv_id db) (msg_ts m))
                 \<longrightarrow> filter (\<lambda>r. row_channel_id r = conv_id db \<and> row_ts r = msg_ts m) (messages st')
                     = filter (\<lambda>r. row_channel_id r = conv_id db \<and> row_ts r = msg_ts m) (messages st))"
proof -
  let ?pb = "process_batch e msgs (ch_id conv) (conv_id db) None st1"
  have "latest_of e None {}" by (simp add: latest_of_def)
  from process_batch_latest[OF this batch(2), of "ch_id conv" "conv_id db" st1] batch(1)
  obtain t where t: "fst ?pb = Some t" "t \<noteq> []" "t \<in> msg_ts ` set msgs"
      "\<forall>s\<in>msg_ts ` set msgs. \<not> js_gt (parseFloat e s) (parseFloat e t)"
    by (auto simp: latest_of_def)
  from ensureConversation_first[OF ens] obtain rest where
    "filter (\<lambda>r. conv_slack_id r = ch_id conv) (conversations st1) = db # rest" by blast
  then have f: "filter (\<lambda>r. conv_slack_id r = ch_id conv) (conversations (snd ?pb)) = db # rest"
    by (simp add: process_batch_conversations)
  let ?st' = "snd ?pb\<lparr>conversations := update_last_ts (conversations (snd ?pb)) (conv_id db) t\<rparr>"
  have run: "ingestConversation e since conv st = Some ?st'"
  proof -
    obtain st2 where pb: "?pb = (Some t, st2)"
      using t(1) by (cases ?pb) auto
    show ?thesis
      using info ens fetch upd t(2)
      by (simp add: ingestConversation_def ingestConversation_try_def Let_def truthy_def pb)
  qed
  have m1: "messages st1 = messages st" using ens by (rule ensureConversation_messages)
  have w: "watermark ?st' (ch_id conv) = Some t"
    using watermark_after_update[OF f, of t] .
  have mono: "\<forall>w. watermark st (ch_id conv) = Some w \<longrightarrow> js_gt (parseFloat e t) (parseFloat e w)"
    using later t(3) by auto
  have stored: "\<forall>m\<in>set msgs.
                 truthy (msg_user m) \<and> msg_type m = ''message''
                 \<and> \<not> store_fails e (MessageUpsert (conv_id db) (msg_ts m))
                 \<longrightarrow> (\<exists>row\<in>set (messages ?st').
                        row_channel_id row = conv_id db \<and> row_ts row = msg_ts m)"
    using process_batch_stores[of _ msgs e "conv_id db" "ch_id conv" None st1] by simp
  have refused: "\<forall>m\<in>set msgs.
                 store_fails e (MessageUpsert (conv_id db) (msg_ts m))
                 \<longrightarrow> filter (\<lambda>r. row_channel_id r = conv_id db \<and> row_ts r = msg_ts m) (messages ?st')
                     = filter (\<lambda>r. row_channel_id r = conv_id db \<and> row_ts r = msg_ts m) (messages st)"
    using process_batch_refused_key[of e "conv_id db" _ msgs "ch_id conv" None st1] m1 by simp
  from run w t(3,4) mono stored refused show ?thesis by blast
qed


theorem ingest_watermark_is_latest_of_batch_witness:
  "\<exists>st'. ingestConversation partial_env None channel_C1 partial_state = Some st'
          \<and> watermark st' ''C1'' = Some ''200''
          \<and> ''200'' \<in> set (map row_ts (messages st'))
          \<and> filter (\<lambda>r. row_channel_id r = 7 \<and> row_ts r = ''100'') (messages st') = []"
proof -
  let ?db = "\<lparr>conv_id = 7, conv_slack_id = ''C1'', conv_name = ''general'', conv_type = Channel,
              last_ts_processed = Some ''50'', conv_createdAt = 0, conv_updatedAt = 0\<rparr>"
  let ?msgs = "[later_message, hello_message]"
  have pf: "parseFloat partial_env = ts_value"
    by (simp add: partial_env_def one_channel_env_def quiet_env_def)
  have info: "slack_call partial_env (conversations_info partial_env (ch_id channel_C1)) = Inr True"
    by code_simp
  have ens: "ensureConversation partial_env channel_C1 partial_state = (Inr ?db, partial_state)"
    by (simp add: ensureConversation_def partial_env_def one_channel_env_def quiet_env_def
          channel_C1_def partial_state_def empty_state_def Let_def)
  have fetch: "fetchMessages partial_env (ch_id channel_C1)
                 (if \<not> truthy None \<and> truthy (last_ts_processed ?db)
                  then last_ts_processed ?db else None) 1000 = Some (Inr ?msgs)"
    by code_simp
  have batch: "?msgs \<noteq> []" "\<forall>m\<in>set ?msgs. msg_ts m \<noteq> []"
    by (simp_all add: hello_message_def later_message_def)
  have later: "\<forall>w. watermark partial_state (ch_id channel_C1) = Some w \<longrightarrow>
                 (\<forall>m\<in>set ?msgs. js_gt (parseFloat partial_env (msg_ts m)) (parseFloat partial_env w))"
    by (simp add: pf watermark_def partial_state_def empty_state_def channel_C1_def
          hello_message_def later_message_def ts_value_def js_gt_def)
  have upd: "\<not> store_fails partial_env (ConversationUpdate (conv_id ?db))"
    by (simp add: partial_env_def)
  from ingest_watermark_is_latest_of_batch[OF info ens fetch batch later upd]
  obtain st' t where run: "ingestConversation partial_env None channel_C1 partial_state = Some st'"
    and w: "watermark st' (ch_id channel_C1) = Some t"
    and t: "t \<in> msg_ts ` set ?msgs"
    and top: "\<forall>m\<in>set ?msgs. \<not> js_gt (parseFloat partial_env (msg_ts m)) (parseFloat partial_env t)"
    and stored: "\<forall>m\<in>set ?msgs.
                 truthy (msg_user m) \<and> msg_type m = ''message''
                 \<and> \<not> store_fails partial_env (MessageUpsert (conv_id ?db) (msg_ts m))
                 \<longrightarrow> (\<exists>row\<in>set (messages st').
                        row_channel_id row = conv_id ?db \<and> row_ts row = msg_ts m)"
    and refused: "\<forall>m\<in>set ?msgs.
                 store_fails partial_env (MessageUpsert (conv_id ?db) (msg_ts m))
                 \<longrightarrow> filter (\<lambda>r. row_channel_id r = conv_id ?db \<and> row_ts r = msg_ts m) (messages st')
                     = filter (\<lambda>r. row_channel_id r = conv_id ?db \<and> row_ts r = msg_ts m)
                         (messages partial_state)"
    by blast
  from t top have "t = ''200''"
    by (auto simp: pf hello_message_def later_message_def ts_value_def js_gt_def)
  with w have w200: "watermark st' ''C1'' = Some ''200''" by (simp add: channel_C1_def)
  from stored have "\<exists>row\<in>set (messages st'). row_channel_id row = 7 \<and> row_ts row = ''200''"
    by (simp add: later_message_def hello_message_def truthy_def partial_env_def)
  then have s200: "''200'' \<in> set (map row_ts (messages st'))" by force
  from refused have r100: "filter (\<lambda>r. row_channel_id r = 7 \<and> row_ts r = ''100'') (messages st') = []"
    by (simp add: later_message_def hello_message_def partial_env_def partial_state_def
          empty_state_def)
  from run w200 s200 r100 show ?thesis by blast
qed

section \<open>Watermark and thread replies at the failing inputs\<close>

text \<open>What \<open>fetchMessages\<close> returns is what the history loop collected, and nothing else.\<close>

lemma fetchMessages_is_history:
  "fetchMessages e conversationId oldest limit = Some (Inr msgs) \<Longrightarrow>
   fetchMessages_loop e conversationId oldest limit True None [] = Some (Inr msgs)"
  by (auto simp: fetchMessages_def split: option.splits sum.splits)

text \<open>
  Claim C3 at its failing input. The thread of \<open>thread_env\<close> has a reply on the platform,
  yet an ingestion pass fetches only the starter, and the store holds the starter alone
  afterwards.
\<close>

theorem ingest_thread_reply_not_stored:
  "fetchThreadReplies thread_env ''C1'' ''100'' = Some (Inr [thread_reply])
   \<and> fetchMessages thread_env ''C1'' None 1000 = Some (Inr [thread_starter])
   \<and> stored_after (ingestAllConversations thread_env None empty_state) ''C1''
       = Some ([''100''], Some ''100'')"
  by code_simp

text \<open>
  Claim C4 at its failing input. The stored watermark is 200; a run with the override 50
  fetches the one message at 100 and writes 100 over it.
\<close>

theorem ingest_override_lowers_watermark:
  "watermark rewind_state ''C1'' = Some ''200''
   \<and> stored_after (ingestAllConversations rewind_env (Some ''50'') rewind_state) ''C1''
       = Some ([''100''], Some ''100'')
   \<and> js_gt (parseFloat rewind_env ''200'') (parseFloat rewind_env ''100'')"
  by code_simp

section \<open>The summary generator\<close>

lemma summary_data_for_fallback:
  "\<not> openai_configured e \<or> (\<exists>err. openai_summary e msgs channelName = Inl err) \<Longrightarrow>
   summary_data_for e msgs channelName = generateHeuristicSummary e msgs channelName"
  by (auto simp: summary_data_for_def generateAISummary_def)

lemma heuristic_recap_nonempty: "sd_summary (generateHeuristicSummary e msgs channelName) \<noteq> []"
  by (simp add: generateHeuristicSummary_def Let_def)

text \<open>
  Claim C5. Let the conversation exist, the window hold at least one message and the
  store answer. Whenever the generative service is not configured, or is configured and
  its call throws, \<open>generateSummaryForTimeWindow\<close> returns a summary and appends it to
  the stored summaries; its recap is not empty, and its recap, highlights, tasks and
  mentions are those of the heuristic path, which has the same fields (\<open>SummaryData\<close>)
  as the model-backed path.
\<close>

theorem generateSummary_falls_back_to_heuristic:
  assumes conv: "filter (\<lambda>r. conv_id r = conversationId) (conversations st) = conversation # others"
    and ok: "\<not> store_fails e (ConversationFind conversationId)"
            "\<not> store_fails e (MessageFindMany conversationId)"
            "\<not> store_fails e (SummaryCreate conversationId)"
    and nonempty: "messages_in_window st conversationId startTime endTime \<noteq> []"
    and fallback: "\<not> openai_configured e
       \<or> (\<exists>err. openai_summary e
                   (map to_summary_message (messages_in_window st conversationId startTime endTime))
                   (conv_name conversation) = Inl err)"
  shows "\<exists>summary.
           generateSummaryForTimeWindow e conversationId startTime endTime st
             = (Inr (Some summary),
                st\<lparr>summaries := summaries st @ [summary],
                   next_summary_id := Suc (next_summary_id st)\<rparr>)
         \<and> sum_summary summary \<noteq> []
         \<and> \<lparr>sd_summary = sum_summary summary, sd_highlights = sum_highlights summary,
             sd_tasks = sum_tasks summary, sd_mentions = sum_mentions summary\<rparr>
           = generateHeuristicSummary e
               (map to_summary_message (messages_in_window st conversationId startTime endTime))
               (conv_name conversation)"
  using conv ok nonempty
  by (simp add: generateSummaryForTimeWindow_def Let_def summary_data_for_fallback[OF fallback]
        heuristic_recap_nonempty)

theorem generateSummary_falls_back_to_heuristic_witness:
  "(\<exists>summary. fst (generateSummaryForTimeWindow throwing_ai_env 7 0 10 summary_state)
                = Inr (Some summary)
              \<and> sum_summary summary \<noteq> [])
   \<and> (\<exists>summary. fst (generateSummaryForTimeWindow quiet_env 7 0 10 summary_state)
                = Inr (Some summary)
              \<and> sum_summary summary \<noteq> [])"
proof -
  let ?row = "\<lparr>conv_id = 7, conv_slack_id = ''C1'', conv_name = ''general'', conv_type = Channel,
               last_ts_processed = Some ''100'', conv_createdAt = 0, conv_updatedAt = 0\<rparr>"
  have conv: "filter (\<lambda>r. conv_id r = 7) (conversations summary_state) = ?row # []"
    by (simp add: summary_state_def empty_state_def)
  have nonempty: "messages_in_window summary_state 7 0 10 \<noteq> []"
    by code_simp
  have thrown: "openai_configured throwing_ai_env"
      "\<not> openai_configured throwing_ai_env
       \<or> (\<exists>err. openai_summary throwing_ai_env
                   (map to_summary_message (messages_in_window summary_state 7 0 10))
                   (conv_name ?row) = Inl err)"
    by (simp_all add: throwing_ai_env_def quiet_env_def)
  have ok_t: "\<not> store_fails throwing_ai_env (ConversationFind 7)"
       "\<not> store_fails throwing_ai_env (MessageFindMany 7)"
       "\<not> store_fails throwing_ai_env (SummaryCreate 7)"
    by (simp_all add: throwing_ai_env_def quiet_env_def)
  have unconfigured: "\<not> openai_configured quiet_env
       \<or> (\<exists>err. openai_summary quiet_env
                   (map to_summary_message (messages_in_window summary_state 7 0 10))
                   (conv_name ?row) = Inl err)"
    by (simp add: quiet_env_def)
  have ok_q: "\<not> store_fails quiet_env (ConversationFind 7)"
       "\<not> store_fails quiet_env (MessageFindMany 7)"
       "\<not> store_fails quiet_env (SummaryCreate 7)"
    by (simp_all add: quiet_env_def)
  from generateSummary_falls_back_to_heuristic[OF conv ok_t nonempty thrown(2)]
       generateSummary_falls_back_to_heuristic[OF conv ok_q nonempty unconfigured]
  show ?thesis by fastforce
qed

end
